theory Spec2Isabelle
  imports Main
begin

section \<open>The upload wizard: data\<close>

text \<open>
  The component \<^verbatim>\<open>UploadWizard\<close> keeps four pieces of React state: \<^verbatim>\<open>currentStep\<close>,
  \<^verbatim>\<open>uploadStatus\<close>, \<^verbatim>\<open>parsedData\<close> and \<^verbatim>\<open>errors\<close>. The last three are objects with
  exactly the two keys \<^verbatim>\<open>asset_allocation\<close> and \<^verbatim>\<open>performance\<close>. The handlers are only ever
  called with \<^verbatim>\<open>step.key\<close> of an entry of \<^verbatim>\<open>STEPS\<close>, so a key is one of two values.
\<close>

datatype step_key = Asset_allocation | Performance

record 'v by_step =
  asset_allocation :: 'v
  performance :: 'v

text \<open>\<^verbatim>\<open>obj[stepKey]\<close>\<close>

fun lookup_key :: "'v by_step \<Rightarrow> step_key \<Rightarrow> 'v" where
  "lookup_key obj Asset_allocation = asset_allocation obj"
| "lookup_key obj Performance = performance obj"

text \<open>\<^verbatim>\<open>{ ...prev, [stepKey]: v }\<close>\<close>

fun spread_with :: "'v by_step \<Rightarrow> step_key \<Rightarrow> 'v \<Rightarrow> 'v by_step" where
  "spread_with prev Asset_allocation v = prev\<lparr>asset_allocation := v\<rparr>"
| "spread_with prev Performance v = prev\<lparr>performance := v\<rparr>"

record step =
  step_id :: nat
  key :: step_key
  title :: string
  description :: string
  expectedType :: string

definition STEPS :: "step list" where
  "STEPS =
    [\<lparr>step_id = 1, key = Asset_allocation, title = ''Asset Allocation Report'',
      description = ''Investment Allocation PDF'', expectedType = ''asset_allocation''\<rparr>,
     \<lparr>step_id = 2, key = Performance, title = ''Performance Report'',
      description = ''Investment Movement and Returns PDF'', expectedType = ''performance''\<rparr>]"

text \<open>
  The status strings \<^verbatim>\<open>'idle'\<close>, \<^verbatim>\<open>'processing'\<close>, \<^verbatim>\<open>'success'\<close>, \<^verbatim>\<open>'error'\<close>. A status
  slot can also hold \<^verbatim>\<open>null\<close> (\<open>None\<close>): that is what \<^verbatim>\<open>handleReset\<close> stores.
\<close>

datatype status = Idle | Processing | Success | Error

text \<open>
  A parsed payload of type \<open>'d\<close> is a JavaScript object, hence truthy; \<open>None\<close> is
  \<^verbatim>\<open>null\<close>/\<^verbatim>\<open>undefined\<close>, which is falsy. So \<^verbatim>\<open>parsedData[k]\<close> being truthy is
  \<open>lookup_key (parsedData s) k \<noteq> None\<close>. An error is a string or \<^verbatim>\<open>null\<close>.
\<close>

record 'd wizard =
  currentStep :: nat
  uploadStatus :: "status option by_step"
  parsedData :: "'d option by_step"
  errors :: "string option by_step"

text \<open>The arguments of the four \<^verbatim>\<open>useState\<close> calls.\<close>

definition initial :: "'d wizard" where
  "initial =
    \<lparr>currentStep = 1,
     uploadStatus = \<lparr>asset_allocation = Some Idle, performance = Some Idle\<rparr>,
     parsedData = \<lparr>asset_allocation = None, performance = None\<rparr>,
     errors = \<lparr>asset_allocation = None, performance = None\<rparr>\<rparr>"

text \<open>Truthiness of a string-or-null value: \<^verbatim>\<open>null\<close> and the empty string are falsy.\<close>

fun truthy :: "string option \<Rightarrow> bool" where
  "truthy None = False"
| "truthy (Some str) = (str \<noteq> [])"

section \<open>The collaborators\<close>

text \<open>
  \<^verbatim>\<open>extractTextFromPDF\<close>, \<^verbatim>\<open>identifyReportType\<close> and \<^verbatim>\<open>parseReport\<close> are imported from
  modules outside the component; they are parameters here. The two asynchronous ones
  either resolve (\<open>Inr\<close>) or reject with an error whose \<^verbatim>\<open>message\<close> is the string under
  \<open>Inl\<close>. The extracted document is any object with a \<^verbatim>\<open>fullText\<close> field (a string or
  \<^verbatim>\<open>null\<close>), the identification is \<^verbatim>\<open>null\<close> or an object with \<^verbatim>\<open>type\<close> and \<^verbatim>\<open>name\<close> (each
  a string or \<^verbatim>\<open>null\<close>), and the parser's result is an object with a \<^verbatim>\<open>data\<close> field (a
  payload or \<^verbatim>\<open>null\<close>). \<^verbatim>\<open>identifyReportType\<close> is synchronous and is taken to return.
\<close>

record extractedPdf =
  fullText :: "string option"

record identification =
  type :: "string option"
  name :: "string option"

record 'd parsed =
  data :: "'d option"

record ('f, 'x, 'd) collaborators =
  extractTextFromPDF :: "'f \<Rightarrow> string + 'x extractedPdf_scheme"
  identifyReportType :: "string \<Rightarrow> identification option"
  parseReport :: "'x extractedPdf_scheme \<Rightarrow> string + 'd parsed"

text \<open>
  The props \<^verbatim>\<open>onComplete\<close> and \<^verbatim>\<open>onPartialData\<close>: the code calls each only when it was
  passed, so the model records whether it was. A callback that is called is taken to
  return.
\<close>

record props =
  onComplete :: bool
  onPartialData :: bool

text \<open>What a call of a handler does to the outside: the calls it makes, in order.\<close>

datatype ('f, 'x, 'd) call =
    Call_extractTextFromPDF 'f
  | Call_identifyReportType string
  | Call_parseReport 'x
  | Call_onPartialData step_key "'d option"
  | Call_onComplete "'d option by_step"

fun is_onPartialData :: "('f, 'x, 'd) call \<Rightarrow> bool" where
  "is_onPartialData (Call_onPartialData k d) = True"
| "is_onPartialData c = False"

fun is_onComplete :: "('f, 'x, 'd) call \<Rightarrow> bool" where
  "is_onComplete (Call_onComplete pd) = True"
| "is_onComplete c = False"

fun is_identifyReportType :: "('f, 'x, 'd) call \<Rightarrow> bool" where
  "is_identifyReportType (Call_identifyReportType t) = True"
| "is_identifyReportType c = False"

fun is_parseReport :: "('f, 'x, 'd) call \<Rightarrow> bool" where
  "is_parseReport (Call_parseReport x) = True"
| "is_parseReport c = False"

section \<open>handleFileUpload\<close>

text \<open>\<^verbatim>\<open>identification?.type\<close> and \<^verbatim>\<open>identification?.name\<close>\<close>

fun optional_type :: "identification option \<Rightarrow> string option" where
  "optional_type None = None"
| "optional_type (Some i) = type i"

fun optional_name :: "identification option \<Rightarrow> string option" where
  "optional_name None = None"
| "optional_name (Some i) = name i"

text \<open>\<^verbatim>\<open>identification?.name || 'Unknown report type'\<close>\<close>

fun actualName :: "identification option \<Rightarrow> string" where
  "actualName i =
    (case optional_name i of
       None \<Rightarrow> ''Unknown report type''
     | Some n \<Rightarrow> if n = [] then ''Unknown report type'' else n)"

definition extraction_message :: string where
  "extraction_message =
    ''Could not extract text from PDF. The file may be image-based or corrupted.''"

definition mismatch_message :: "string \<Rightarrow> string \<Rightarrow> string" where
  "mismatch_message actual expected =
    ''This appears to be a '' @ actual @ ''. Please upload a '' @ expected @ '' for this step.''"

text \<open>
  The message of the \<^verbatim>\<open>TypeError\<close> that reading \<^verbatim>\<open>step.expectedType\<close> raises when
  \<^verbatim>\<open>STEPS.find\<close> finds nothing. No key of \<open>step_key\<close> gets there.
\<close>

definition undefined_step_message :: string where
  "undefined_step_message = ''Cannot read properties of undefined (reading 'expectedType')''"

text \<open>Lines 61 and 62: the slot enters \<^verbatim>\<open>'processing'\<close> and its error is cleared.\<close>

definition begin_processing :: "step_key \<Rightarrow> 'd wizard \<Rightarrow> 'd wizard" where
  "begin_processing stepKey s =
    (let s1 = s\<lparr>uploadStatus := spread_with (uploadStatus s) stepKey (Some Processing)\<rparr>
     in s1\<lparr>errors := spread_with (errors s1) stepKey None\<rparr>)"

text \<open>
  The body of the \<^verbatim>\<open>try\<close> block (lines 65 to 107). It either throws (\<open>Inl\<close> the
  message) or runs to its end (\<open>Inr\<close> the state it leaves); the calls made so far come
  with both. \<open>render\<close> is the state of the render that created the callback: the
  closure reads \<^verbatim>\<open>parsedData\<close> and \<^verbatim>\<open>currentStep\<close> from it, while the functional
  updates \<^verbatim>\<open>prev => ...\<close> act on the current state \<open>s\<close>. The step advance that the code
  schedules with \<^verbatim>\<open>setTimeout\<close> is applied at once.
\<close>

definition try_block ::
  "('f, 'x, 'd) collaborators \<Rightarrow> props \<Rightarrow> 'f \<Rightarrow> step_key \<Rightarrow> 'd wizard \<Rightarrow> 'd wizard \<Rightarrow>
   (string + 'd wizard) \<times> ('f, 'x extractedPdf_scheme, 'd) call list" where
  "try_block C P file stepKey render s =
    (case extractTextFromPDF C file of
       Inl message \<Rightarrow> (Inl message, [Call_extractTextFromPDF file])
     | Inr extractedPdf \<Rightarrow>
        (case fullText extractedPdf of
           None \<Rightarrow> (Inl extraction_message, [Call_extractTextFromPDF file])
         | Some txt \<Rightarrow>
            if txt = [] \<or> length txt < 100
            then (Inl extraction_message, [Call_extractTextFromPDF file])
            else
              let identification = identifyReportType C txt;
                  calls2 = [Call_extractTextFromPDF file, Call_identifyReportType txt]
              in (case find (\<lambda>st. key st = stepKey) STEPS of
                    None \<Rightarrow> (Inl undefined_step_message, calls2)
                  | Some step \<Rightarrow>
                     if optional_type identification \<noteq> Some (expectedType step)
                     then (Inl (mismatch_message (actualName identification) (title step)), calls2)
                     else
                       (case parseReport C extractedPdf of
                          Inl message \<Rightarrow> (Inl message, calls2 @ [Call_parseReport extractedPdf])
                        | Inr parsed \<Rightarrow>
                           let newParsedData = spread_with (parsedData render) stepKey (data parsed);
                               s1 = s\<lparr>parsedData := newParsedData\<rparr>;
                               s2 = s1\<lparr>uploadStatus :=
                                         spread_with (uploadStatus s1) stepKey (Some Success)\<rparr>;
                               calls3 = calls2 @ [Call_parseReport extractedPdf]
                                 @ (if onPartialData P
                                    then [Call_onPartialData stepKey (data parsed)] else []);
                               s3 = (if currentStep render < length STEPS
                                     then s2\<lparr>currentStep := currentStep render + 1\<rparr> else s2)
                           in if stepKey = Performance \<and> asset_allocation newParsedData \<noteq> None
                              then (Inr s3, calls3 @ (if onComplete P
                                                      then [Call_onComplete newParsedData] else []))
                              else if stepKey = Asset_allocation \<and> performance newParsedData \<noteq> None
                              then (Inr s3, calls3 @ (if onComplete P
                                                      then [Call_onComplete newParsedData] else []))
                              else (Inr s3, calls3)))))"

text \<open>The \<^verbatim>\<open>catch\<close> block (lines 109 to 113).\<close>

definition catch_block :: "step_key \<Rightarrow> string \<Rightarrow> 'd wizard \<Rightarrow> 'd wizard" where
  "catch_block stepKey message s =
    (let s1 = s\<lparr>errors := spread_with (errors s) stepKey (Some message)\<rparr>
     in s1\<lparr>uploadStatus := spread_with (uploadStatus s1) stepKey (Some Error)\<rparr>)"

text \<open>
  \<^verbatim>\<open>handleFileUpload(file, error, stepKey)\<close>, run from its first line to its last on the
  state \<open>s\<close> with nothing else happening in between: the new state and the calls made.
  The callback is the one of the current render. Everything that can throw stands inside
  the \<^verbatim>\<open>try\<close> block, whose \<^verbatim>\<open>catch\<close> turns it into the slot's error state, so the function
  has no exceptional result. The handler is \<^verbatim>\<open>async\<close>: what happens when other handlers run
  while it waits at one of its two \<^verbatim>\<open>await\<close>s is the subject of the next section but one.
\<close>

definition handleFileUpload ::
  "('f, 'x, 'd) collaborators \<Rightarrow> props \<Rightarrow> 'f option \<Rightarrow> string option \<Rightarrow> step_key \<Rightarrow> 'd wizard \<Rightarrow>
   'd wizard \<times> ('f, 'x extractedPdf_scheme, 'd) call list" where
  "handleFileUpload C P file error stepKey s =
    (if truthy error then
       (let s1 = s\<lparr>errors := spread_with (errors s) stepKey error\<rparr>
        in s1\<lparr>uploadStatus := spread_with (uploadStatus s1) stepKey (Some Error)\<rparr>, [])
     else
       (case file of
          None \<Rightarrow> (s, [])
        | Some f \<Rightarrow>
           (case try_block C P f stepKey s (begin_processing stepKey s) of
              (Inr s', calls) \<Rightarrow> (s', calls)
            | (Inl message, calls) \<Rightarrow>
                (catch_block stepKey message (begin_processing stepKey s), calls))))"

section \<open>handleReset and isComplete\<close>

definition handleReset :: "step_key \<Rightarrow> 'd wizard \<Rightarrow> 'd wizard" where
  "handleReset stepKey s =
    (let s1 = s\<lparr>parsedData := spread_with (parsedData s) stepKey None\<rparr>;
         s2 = s1\<lparr>uploadStatus := spread_with (uploadStatus s1) stepKey None\<rparr>
     in s2\<lparr>errors := spread_with (errors s2) stepKey None\<rparr>)"

text \<open>\<^verbatim>\<open>parsedData.asset_allocation && parsedData.performance\<close>, as a truth value.\<close>

definition isComplete :: "'d wizard \<Rightarrow> bool" where
  "isComplete s = (asset_allocation (parsedData s) \<noteq> None \<and> performance (parsedData s) \<noteq> None)"

section \<open>Calls in flight\<close>

text \<open>
  \<^verbatim>\<open>handleFileUpload\<close> is an \<^verbatim>\<open>async\<close> function with two \<^verbatim>\<open>await\<close>s (lines 66 and 84). A
  call that has passed its first lines stays in flight until the awaited promise settles,
  and other handlers run meanwhile. A call in flight is waiting either for
  \<^verbatim>\<open>extractTextFromPDF\<close> or for \<^verbatim>\<open>parseReport\<close> (on the extracted document); it carries its
  file, its key and the state of the render that created the callback, from which it
  reads \<^verbatim>\<open>parsedData\<close> and \<^verbatim>\<open>currentStep\<close>.
\<close>

datatype 'x stage = Extracting | Parsing 'x

record ('f, 'x, 'd) task =
  task_file :: 'f
  task_key :: step_key
  task_render :: "'d wizard"
  task_stage :: "'x stage"

text \<open>The component: its state and the calls in flight, oldest first.\<close>

record ('f, 'x, 'd) component =
  session :: "'d wizard"
  inflight :: "('f, 'x, 'd) task list"

text \<open>The component as mounted: the initial state, nothing in flight.\<close>

definition mounted :: "('f, 'x, 'd) component" where
  "mounted = \<lparr>session = initial, inflight = []\<rparr>"

text \<open>
  Lines 52 to 66, up to the first \<^verbatim>\<open>await\<close>: a selection error is recorded; a null file
  does nothing; otherwise the slot enters \<^verbatim>\<open>'processing'\<close>, \<^verbatim>\<open>extractTextFromPDF\<close> is called
  and the call is in flight, with the state of the current render as its closure.
\<close>

definition start_upload ::
  "'f option \<Rightarrow> string option \<Rightarrow> step_key \<Rightarrow> ('f, 'x extractedPdf_scheme, 'd) component \<Rightarrow>
   ('f, 'x extractedPdf_scheme, 'd) component \<times> ('f, 'x extractedPdf_scheme, 'd) call list" where
  "start_upload file error stepKey c =
    (if truthy error then
       (c\<lparr>session :=
            (let s1 = (session c)\<lparr>errors := spread_with (errors (session c)) stepKey error\<rparr>
             in s1\<lparr>uploadStatus := spread_with (uploadStatus s1) stepKey (Some Error)\<rparr>)\<rparr>, [])
     else
       (case file of
          None \<Rightarrow> (c, [])
        | Some f \<Rightarrow>
           (c\<lparr>session := begin_processing stepKey (session c),
              inflight := inflight c @
                [\<lparr>task_file = f, task_key = stepKey, task_render = session c,
                  task_stage = Extracting\<rparr>]\<rparr>,
            [Call_extractTextFromPDF f])))"

text \<open>
  Lines 66 to 84, from the first \<^verbatim>\<open>await\<close> to the second: either something is thrown
  (\<open>Inl\<close>) or \<^verbatim>\<open>parseReport\<close> has been called on the extracted document (\<open>Inr\<close>).
\<close>

definition after_extract ::
  "('f, 'x, 'd) collaborators \<Rightarrow> 'f \<Rightarrow> step_key \<Rightarrow>
   (string + 'x extractedPdf_scheme) \<times> ('f, 'x extractedPdf_scheme, 'd) call list" where
  "after_extract C file stepKey =
    (case extractTextFromPDF C file of
       Inl message \<Rightarrow> (Inl message, [])
     | Inr extractedPdf \<Rightarrow>
        (case fullText extractedPdf of
           None \<Rightarrow> (Inl extraction_message, [])
         | Some txt \<Rightarrow>
            if txt = [] \<or> length txt < 100
            then (Inl extraction_message, [])
            else
              let identification = identifyReportType C txt
              in (case find (\<lambda>st. key st = stepKey) STEPS of
                    None \<Rightarrow> (Inl undefined_step_message, [Call_identifyReportType txt])
                  | Some step \<Rightarrow>
                     if optional_type identification \<noteq> Some (expectedType step)
                     then (Inl (mismatch_message (actualName identification) (title step)),
                           [Call_identifyReportType txt])
                     else (Inr extractedPdf,
                           [Call_identifyReportType txt, Call_parseReport extractedPdf]))))"

text \<open>
  Lines 84 to 107, after the second \<^verbatim>\<open>await\<close>: the parser's rejection is thrown, or the
  payload is merged into the \<^verbatim>\<open>parsedData\<close> of the closure \<open>render\<close> and stored, the
  status is updated on the current state \<open>s\<close>, and the callbacks are called.
\<close>

definition after_parse ::
  "('f, 'x, 'd) collaborators \<Rightarrow> props \<Rightarrow> step_key \<Rightarrow> 'x extractedPdf_scheme \<Rightarrow>
   'd wizard \<Rightarrow> 'd wizard \<Rightarrow> (string + 'd wizard) \<times> ('f, 'x extractedPdf_scheme, 'd) call list" where
  "after_parse C P stepKey extractedPdf render s =
    (case parseReport C extractedPdf of
       Inl message \<Rightarrow> (Inl message, [])
     | Inr parsed \<Rightarrow>
        let newParsedData = spread_with (parsedData render) stepKey (data parsed);
            s1 = s\<lparr>parsedData := newParsedData\<rparr>;
            s2 = s1\<lparr>uploadStatus := spread_with (uploadStatus s1) stepKey (Some Success)\<rparr>;
            calls1 = (if onPartialData P then [Call_onPartialData stepKey (data parsed)] else []);
            s3 = (if currentStep render < length STEPS
                  then s2\<lparr>currentStep := currentStep render + 1\<rparr> else s2)
        in if stepKey = Performance \<and> asset_allocation newParsedData \<noteq> None
           then (Inr s3, calls1 @ (if onComplete P then [Call_onComplete newParsedData] else []))
           else if stepKey = Asset_allocation \<and> performance newParsedData \<noteq> None
           then (Inr s3, calls1 @ (if onComplete P then [Call_onComplete newParsedData] else []))
           else (Inr s3, calls1))"

text \<open>
  The promise awaited by the \<open>n\<close>-th call in flight settles and that call runs on to its
  next \<^verbatim>\<open>await\<close> or to its end; what it throws goes to \<open>catch_block\<close>, on the current state.
\<close>

definition settle ::
  "('f, 'x, 'd) collaborators \<Rightarrow> props \<Rightarrow> nat \<Rightarrow> ('f, 'x extractedPdf_scheme, 'd) component \<Rightarrow>
   ('f, 'x extractedPdf_scheme, 'd) component \<times> ('f, 'x extractedPdf_scheme, 'd) call list" where
  "settle C P n c =
    (if n < length (inflight c) then
       let t = inflight c ! n;
           others = take n (inflight c) @ drop (Suc n) (inflight c)
       in (case task_stage t of
             Extracting \<Rightarrow>
               (case after_extract C (task_file t) (task_key t) of
                  (Inl message, calls) \<Rightarrow>
                    (c\<lparr>session := catch_block (task_key t) message (session c),
                       inflight := others\<rparr>, calls)
                | (Inr extractedPdf, calls) \<Rightarrow>
                    (c\<lparr>inflight := (inflight c)[n := t\<lparr>task_stage := Parsing extractedPdf\<rparr>]\<rparr>,
                     calls))
           | Parsing extractedPdf \<Rightarrow>
               (case after_parse C P (task_key t) extractedPdf (task_render t) (session c) of
                  (Inl message, calls) \<Rightarrow>
                    (c\<lparr>session := catch_block (task_key t) message (session c),
                       inflight := others\<rparr>, calls)
                | (Inr s', calls) \<Rightarrow> (c\<lparr>session := s', inflight := others\<rparr>, calls)))
     else (c, []))"

text \<open>
  What can happen to the component: a drop zone calls \<^verbatim>\<open>handleFileUpload\<close>, a Replace
  button calls \<^verbatim>\<open>handleReset\<close>, or the promise of a call in flight settles. Between two
  events the component has rendered, so a handler is the one of the current state.
\<close>

datatype 'f event =
    FileUpload "'f option" "string option" step_key
  | Reset step_key
  | Settle nat

fun fire ::
  "('f, 'x, 'd) collaborators \<Rightarrow> props \<Rightarrow> 'f event \<Rightarrow> ('f, 'x extractedPdf_scheme, 'd) component \<Rightarrow>
   ('f, 'x extractedPdf_scheme, 'd) component \<times> ('f, 'x extractedPdf_scheme, 'd) call list" where
  "fire C P (FileUpload file error stepKey) c = start_upload file error stepKey c"
| "fire C P (Reset stepKey) c = (c\<lparr>session := handleReset stepKey (session c)\<rparr>, [])"
| "fire C P (Settle n) c = settle C P n c"

fun exec ::
  "('f, 'x, 'd) collaborators \<Rightarrow> props \<Rightarrow> 'f event list \<Rightarrow> ('f, 'x extractedPdf_scheme, 'd) component \<Rightarrow>
   ('f, 'x extractedPdf_scheme, 'd) component \<times> ('f, 'x extractedPdf_scheme, 'd) call list" where
  "exec C P [] c = (c, [])"
| "exec C P (ev # evs) c =
    (case fire C P ev c of
       (c1, calls1) \<Rightarrow> (case exec C P evs c1 of (c2, calls2) \<Rightarrow> (c2, calls1 @ calls2)))"

text \<open>
  Two conditions on a sequence of events. The slot on which an event starts an upload, and
  the slot that a call of \<^verbatim>\<open>handleFileUpload\<close> writes to (with a selection error or a
  file). \<open>no_cross_slot_overlap\<close>: no upload starts while an upload to the other slot is in
  flight. \<open>no_same_slot_overlap k\<close>: no call of \<^verbatim>\<open>handleFileUpload\<close> writes to slot \<open>k\<close> while
  an upload to slot \<open>k\<close> is in flight.
\<close>

fun starts_upload :: "'f event \<Rightarrow> step_key option" where
  "starts_upload (FileUpload (Some f) error stepKey) = (if truthy error then None else Some stepKey)"
| "starts_upload ev = None"

fun writes_slot :: "'f event \<Rightarrow> step_key option" where
  "writes_slot (FileUpload file error stepKey) =
    (if truthy error \<or> file \<noteq> None then Some stepKey else None)"
| "writes_slot ev = None"

fun no_cross_slot_overlap ::
  "('f, 'x, 'd) collaborators \<Rightarrow> props \<Rightarrow> 'f event list \<Rightarrow>
   ('f, 'x extractedPdf_scheme, 'd) component \<Rightarrow> bool" where
  "no_cross_slot_overlap C P [] c = True"
| "no_cross_slot_overlap C P (ev # evs) c =
    ((case starts_upload ev of
        None \<Rightarrow> True
      | Some stepKey \<Rightarrow> list_all (\<lambda>t. task_key t = stepKey) (inflight c))
     \<and> no_cross_slot_overlap C P evs (fst (fire C P ev c)))"

fun no_same_slot_overlap ::
  "step_key \<Rightarrow> ('f, 'x, 'd) collaborators \<Rightarrow> props \<Rightarrow> 'f event list \<Rightarrow>
   ('f, 'x extractedPdf_scheme, 'd) component \<Rightarrow> bool" where
  "no_same_slot_overlap k C P [] c = True"
| "no_same_slot_overlap k C P (ev # evs) c =
    ((writes_slot ev = Some k \<longrightarrow> list_all (\<lambda>t. task_key t \<noteq> k) (inflight c))
     \<and> no_same_slot_overlap k C P evs (fst (fire C P ev c)))"

text \<open>
  Two invariants for the proofs. \<open>payloads_kept\<close>: a slot in \<^verbatim>\<open>'success'\<close> holds a payload,
  in the state and in the closure of every call in flight on the other slot, and the calls
  in flight are all on one slot. \<open>errors_match k\<close>: slot \<open>k\<close> has an error exactly when its
  status is \<^verbatim>\<open>'error'\<close>, it has none while a call on it is in flight, and at most one call
  on it is in flight.
\<close>

definition payloads_kept :: "('f, 'x, 'd) component \<Rightarrow> bool" where
  "payloads_kept c =
    ((\<forall>k. lookup_key (uploadStatus (session c)) k = Some Success
          \<longrightarrow> lookup_key (parsedData (session c)) k \<noteq> None)
     \<and> (\<forall>t \<in> set (inflight c). \<forall>k. k \<noteq> task_key t
          \<longrightarrow> lookup_key (uploadStatus (session c)) k = Some Success
          \<longrightarrow> lookup_key (parsedData (task_render t)) k \<noteq> None)
     \<and> (\<forall>t \<in> set (inflight c). \<forall>u \<in> set (inflight c). task_key t = task_key u))"

definition errors_match :: "step_key \<Rightarrow> ('f, 'x, 'd) component \<Rightarrow> bool" where
  "errors_match k c =
    (((lookup_key (errors (session c)) k \<noteq> None)
        = (lookup_key (uploadStatus (session c)) k = Some Error))
     \<and> (k \<in> set (map task_key (inflight c)) \<longrightarrow> lookup_key (errors (session c)) k = None)
     \<and> count_list (map task_key (inflight c)) k \<le> 1)"

section \<open>Example collaborators\<close>

text \<open>
  A concrete set of collaborators, for evaluating the handlers on concrete inputs. A file
  is its name. Five files have extractable text (the allocation report 120 characters,
  the performance report 100, a damaged performance report 101, a short document 99, a
  letter 100); every other file is rejected by the extractor. The identifier recognises
  the two report types by a letter of the text, and the parser fails on the damaged
  report and otherwise returns the text's length as the payload.
\<close>

definition example_collaborators :: "(string, unit, nat) collaborators" where
  "example_collaborators =
    \<lparr>extractTextFromPDF = (\<lambda>f.
       if f = ''allocation.pdf'' then Inr \<lparr>fullText = Some (replicate 120 CHR ''a'')\<rparr>
       else if f = ''performance.pdf'' then Inr \<lparr>fullText = Some (replicate 100 CHR ''p'')\<rparr>
       else if f = ''damaged.pdf'' then Inr \<lparr>fullText = Some (replicate 101 CHR ''p'')\<rparr>
       else if f = ''short.pdf'' then Inr \<lparr>fullText = Some (replicate 99 CHR ''p'')\<rparr>
       else if f = ''letter.pdf'' then Inr \<lparr>fullText = Some (replicate 100 CHR ''x'')\<rparr>
       else Inl ''Invalid PDF structure''),
     identifyReportType = (\<lambda>txt.
       if CHR ''a'' \<in> set txt
       then Some \<lparr>type = Some ''asset_allocation'', name = Some ''Asset Allocation Report''\<rparr>
       else if CHR ''p'' \<in> set txt
       then Some \<lparr>type = Some ''performance'', name = Some ''Performance Report''\<rparr>
       else None),
     parseReport = (\<lambda>x.
       case fullText x of
         None \<Rightarrow> Inl ''No text''
       | Some txt \<Rightarrow> if length txt = 101 then Inl ''No returns table found''
                     else Inr \<lparr>data = Some (length txt)\<rparr>)\<rparr>"

definition example_props :: props where
  "example_props = \<lparr>onComplete = True, onPartialData = True\<rparr>"

section \<open>Basic facts\<close>

lemma lookup_spread_same: "lookup_key (spread_with obj k v) k = v"
  by (cases k) simp_all

lemma lookup_spread_other: "k' \<noteq> k \<Longrightarrow> lookup_key (spread_with obj k v) k' = lookup_key obj k'"
  by (cases k; cases k') simp_all

lemma spread_spread: "spread_with (spread_with obj k a) k b = spread_with obj k b"
  by (cases k) simp_all

lemma length_STEPS: "length STEPS = 2"
  by (simp add: STEPS_def)

text \<open>\<^verbatim>\<open>STEPS.find\<close> finds the step of every key.\<close>

lemma find_step:
  assumes "step \<in> set STEPS"
  shows "find (\<lambda>st. key st = key step) STEPS = Some step"
  using assms by (auto simp: STEPS_def)

lemma find_step_key:
  "\<exists>step. find (\<lambda>st. key st = stepKey) STEPS = Some step \<and> step \<in> set STEPS \<and> key step = stepKey"
  by (cases stepKey) (simp_all add: STEPS_def)

text \<open>The result of \<^verbatim>\<open>handleFileUpload\<close> on each of its paths.\<close>

lemma upload_selection_error:
  assumes "truthy error"
  shows "handleFileUpload C P file error stepKey s =
    (s\<lparr>errors := spread_with (errors s) stepKey error,
       uploadStatus := spread_with (uploadStatus s) stepKey (Some Error)\<rparr>, [])"
  using assms by (simp add: handleFileUpload_def)

lemma upload_rejected:
  assumes "\<not> truthy error" and "extractTextFromPDF C f = Inl message"
  shows "handleFileUpload C P (Some f) error stepKey s =
    (catch_block stepKey message (begin_processing stepKey s), [Call_extractTextFromPDF f])"
  using assms by (simp add: handleFileUpload_def try_block_def)

lemma upload_insufficient:
  assumes "\<not> truthy error" and "extractTextFromPDF C f = Inr x"
    and "fullText x = None \<or> (\<exists>txt. fullText x = Some txt \<and> length txt < 100)"
  shows "handleFileUpload C P (Some f) error stepKey s =
    (catch_block stepKey extraction_message (begin_processing stepKey s),
     [Call_extractTextFromPDF f])"
  using assms by (auto simp: handleFileUpload_def try_block_def)

lemma upload_mismatch:
  assumes "\<not> truthy error" and "extractTextFromPDF C f = Inr x"
    and "fullText x = Some txt" and "100 \<le> length txt"
    and "find (\<lambda>st. key st = stepKey) STEPS = Some step"
    and "optional_type (identifyReportType C txt) \<noteq> Some (expectedType step)"
  shows "handleFileUpload C P (Some f) error stepKey s =
    (catch_block stepKey
       (mismatch_message (actualName (identifyReportType C txt)) (title step))
       (begin_processing stepKey s),
     [Call_extractTextFromPDF f, Call_identifyReportType txt])"
  using assms by (auto simp: handleFileUpload_def try_block_def)

lemma upload_parse_failure:
  assumes "\<not> truthy error" and "extractTextFromPDF C f = Inr x"
    and "fullText x = Some txt" and "100 \<le> length txt"
    and "find (\<lambda>st. key st = stepKey) STEPS = Some step"
    and "optional_type (identifyReportType C txt) = Some (expectedType step)"
    and "parseReport C x = Inl message"
  shows "handleFileUpload C P (Some f) error stepKey s =
    (catch_block stepKey message (begin_processing stepKey s),
     [Call_extractTextFromPDF f, Call_identifyReportType txt, Call_parseReport x])"
  using assms by (auto simp: handleFileUpload_def try_block_def)

lemma upload_success_state:
  assumes "\<not> truthy error" and "extractTextFromPDF C f = Inr x"
    and "fullText x = Some txt" and "100 \<le> length txt"
    and "find (\<lambda>st. key st = stepKey) STEPS = Some step"
    and "optional_type (identifyReportType C txt) = Some (expectedType step)"
    and "parseReport C x = Inr p"
  shows "fst (handleFileUpload C P (Some f) error stepKey s) =
    s\<lparr>currentStep := (if currentStep s < 2 then currentStep s + 1 else currentStep s),
      uploadStatus := spread_with (uploadStatus s) stepKey (Some Success),
      parsedData := spread_with (parsedData s) stepKey (data p),
      errors := spread_with (errors s) stepKey None\<rparr>"
  using assms
  by (cases stepKey)
     (auto simp: handleFileUpload_def try_block_def begin_processing_def Let_def length_STEPS
        spread_spread)

lemma upload_success_calls:
  assumes "\<not> truthy error" and "extractTextFromPDF C f = Inr x"
    and "fullText x = Some txt" and "100 \<le> length txt"
    and "find (\<lambda>st. key st = stepKey) STEPS = Some step"
    and "optional_type (identifyReportType C txt) = Some (expectedType step)"
    and "parseReport C x = Inr p"
    and "other \<noteq> stepKey"
  shows "snd (handleFileUpload C P (Some f) error stepKey s) =
    [Call_extractTextFromPDF f, Call_identifyReportType txt, Call_parseReport x]
    @ (if onPartialData P then [Call_onPartialData stepKey (data p)] else [])
    @ (if onComplete P \<and> lookup_key (parsedData s) other \<noteq> None
       then [Call_onComplete (spread_with (parsedData s) stepKey (data p))] else [])"
  using assms
  by (cases stepKey; cases other) (auto simp: handleFileUpload_def try_block_def begin_processing_def Let_def)

text \<open>The fields of the state after the first two updates and after the \<^verbatim>\<open>catch\<close> block.\<close>

lemma begin_processing_fields:
  "uploadStatus (begin_processing stepKey s) = spread_with (uploadStatus s) stepKey (Some Processing)"
  "errors (begin_processing stepKey s) = spread_with (errors s) stepKey None"
  "parsedData (begin_processing stepKey s) = parsedData s"
  "currentStep (begin_processing stepKey s) = currentStep s"
  by (simp_all add: begin_processing_def)

lemma catch_block_fields:
  "uploadStatus (catch_block stepKey message s) = spread_with (uploadStatus s) stepKey (Some Error)"
  "errors (catch_block stepKey message s) = spread_with (errors s) stepKey (Some message)"
  "parsedData (catch_block stepKey message s) = parsedData s"
  "currentStep (catch_block stepKey message s) = currentStep s"
  by (simp_all add: catch_block_def)

text \<open>Every call of \<^verbatim>\<open>handleFileUpload\<close> leaves one of four states.\<close>

lemma upload_state_cases:
  obtains
    (noop) "fst (handleFileUpload C P file error stepKey s) = s"
  | (selection) "truthy error" and
      "fst (handleFileUpload C P file error stepKey s) =
        s\<lparr>errors := spread_with (errors s) stepKey error,
          uploadStatus := spread_with (uploadStatus s) stepKey (Some Error)\<rparr>"
  | (caught) message where
      "fst (handleFileUpload C P file error stepKey s) =
        catch_block stepKey message (begin_processing stepKey s)"
  | (succeeded) x p where "parseReport C x = Inr p" and
      "fst (handleFileUpload C P file error stepKey s) =
        s\<lparr>currentStep := (if currentStep s < 2 then currentStep s + 1 else currentStep s),
          uploadStatus := spread_with (uploadStatus s) stepKey (Some Success),
          parsedData := spread_with (parsedData s) stepKey (data p),
          errors := spread_with (errors s) stepKey None\<rparr>"
proof (cases "truthy error")
  case True
  then show ?thesis
    using selection by (simp add: upload_selection_error)
next
  case no_error: False
  show ?thesis
  proof (cases "file")
    case None
    then show ?thesis
      using noop no_error by (simp add: handleFileUpload_def)
  next
    case (Some f)
    show ?thesis
    proof (cases "extractTextFromPDF C f")
      case (Inl message)
      then show ?thesis
        using caught [of message] Some by (simp add: upload_rejected [OF no_error])
    next
      case (Inr x)
      show ?thesis
      proof (cases "fullText x = None \<or> (\<exists>t. fullText x = Some t \<and> length t < 100)")
        case True
        then show ?thesis
          using caught [of extraction_message] Some
          by (simp add: upload_insufficient [OF no_error Inr])
      next
        case False
        then obtain t where t: "fullText x = Some t" "100 \<le> length t"
          by (cases "fullText x") auto
        obtain step where found: "find (\<lambda>st. key st = stepKey) STEPS = Some step"
          using find_step_key by blast
        show ?thesis
        proof (cases "optional_type (identifyReportType C t) = Some (expectedType step)")
          case False
          then show ?thesis
            using caught [of "mismatch_message (actualName (identifyReportType C t)) (title step)"]
              Some
            by (simp add: upload_mismatch [OF no_error Inr t found] del: actualName.simps)
        next
          case True
          show ?thesis
          proof (cases "parseReport C x")
            case (Inl message)
            then show ?thesis
              using caught [of message] Some
              by (simp add: upload_parse_failure [OF no_error Inr t found True])
          next
            case parsed: (Inr p)
            show ?thesis
              using succeeded [OF parsed] Some
              by (simp add: upload_success_state [OF no_error Inr t found True parsed])
          qed
        qed
      qed
    qed
  qed
qed

text \<open>A submission to one slot leaves the other slot as it was.\<close>

lemma upload_frame:
  assumes "other \<noteq> stepKey"
  shows "lookup_key (uploadStatus (fst (handleFileUpload C P file error stepKey s))) other
           = lookup_key (uploadStatus s) other
       \<and> lookup_key (parsedData (fst (handleFileUpload C P file error stepKey s))) other
           = lookup_key (parsedData s) other
       \<and> lookup_key (errors (fst (handleFileUpload C P file error stepKey s))) other
           = lookup_key (errors s) other"
  by (cases rule: upload_state_cases [of C P "file" error stepKey s])
     (simp_all add: catch_block_fields begin_processing_fields lookup_spread_other [OF assms])

text \<open>Once the text is long enough, the identifier is called, once, on that text.\<close>

lemma upload_identifies:
  assumes "\<not> truthy error" and "extractTextFromPDF C f = Inr x"
    and "fullText x = Some txt" and "100 \<le> length txt"
  shows "filter is_identifyReportType (snd (handleFileUpload C P (Some f) error stepKey s))
    = [Call_identifyReportType txt]"
proof -
  obtain step where found: "find (\<lambda>st. key st = stepKey) STEPS = Some step"
    using find_step_key by blast
  obtain other where other: "other \<noteq> stepKey"
    by (cases stepKey) auto
  show ?thesis
  proof (cases "optional_type (identifyReportType C txt) = Some (expectedType step)")
    case False
    show ?thesis
      by (simp add: upload_mismatch [OF assms found False])
  next
    case True
    show ?thesis
    proof (cases "parseReport C x")
      case (Inl message)
      show ?thesis
        by (simp add: upload_parse_failure [OF assms found True Inl])
    next
      case (Inr p)
      show ?thesis
        by (simp add: upload_success_calls [OF assms found True Inr other])
    qed
  qed
qed

text \<open>The steps that \<^verbatim>\<open>STEPS.find\<close> returns for the two keys.\<close>

lemma find_asset_allocation:
  "find (\<lambda>st. key st = Asset_allocation) STEPS =
    Some \<lparr>step_id = 1, key = Asset_allocation, title = ''Asset Allocation Report'',
      description = ''Investment Allocation PDF'', expectedType = ''asset_allocation''\<rparr>"
  by (simp add: STEPS_def)

lemma find_performance:
  "find (\<lambda>st. key st = Performance) STEPS =
    Some \<lparr>step_id = 2, key = Performance, title = ''Performance Report'',
      description = ''Investment Movement and Returns PDF'', expectedType = ''performance''\<rparr>"
  by (simp add: STEPS_def)

text \<open>The fields of the state after \<^verbatim>\<open>handleReset\<close>, and a lookup after an update.\<close>

lemma handleReset_fields:
  "uploadStatus (handleReset stepKey s) = spread_with (uploadStatus s) stepKey None"
  "parsedData (handleReset stepKey s) = spread_with (parsedData s) stepKey None"
  "errors (handleReset stepKey s) = spread_with (errors s) stepKey None"
  "currentStep (handleReset stepKey s) = currentStep s"
  by (simp_all add: handleReset_def)

lemma lookup_spread:
  "lookup_key (spread_with obj k v) k' = (if k' = k then v else lookup_key obj k')"
  by (simp add: lookup_spread_same lookup_spread_other)

text \<open>
  The three stretches of the handler, put end to end, are the \<^verbatim>\<open>try\<close> block; so a call of
  \<^verbatim>\<open>handleFileUpload\<close> whose two promises settle before anything else happens is
  \<open>handleFileUpload\<close>.
\<close>

lemma try_block_phases:
  "try_block C P f stepKey render s =
    (case after_extract C f stepKey of
       (Inl message, calls) \<Rightarrow> (Inl message, Call_extractTextFromPDF f # calls)
     | (Inr x, calls) \<Rightarrow>
        (case after_parse C P stepKey x render s of
           (result, calls') \<Rightarrow> (result, Call_extractTextFromPDF f # calls @ calls')))"
  by (auto simp: try_block_def after_extract_def after_parse_def Let_def
      split: sum.splits option.splits)

lemma exec_uninterrupted:
  assumes "inflight c = []"
  shows "exec C P [FileUpload candidate error stepKey, Settle 0, Settle 0] c =
    (c\<lparr>session := fst (handleFileUpload C P candidate error stepKey (session c))\<rparr>,
     snd (handleFileUpload C P candidate error stepKey (session c)))"
proof -
  have same: "c\<lparr>session := s, inflight := []\<rparr> = c\<lparr>session := s\<rparr>" for s
    using assms by (cases c) simp
  show ?thesis
    using assms same
    by (auto simp: handleFileUpload_def try_block_phases start_upload_def settle_def Let_def
        split: sum.splits option.splits prod.splits)
qed

lemma exec_append:
  "exec C P (evs @ later) c =
    (case exec C P evs c of
       (c1, calls1) \<Rightarrow> (case exec C P later c1 of (c2, calls2) \<Rightarrow> (c2, calls1 @ calls2)))"
  by (induction evs arbitrary: c) (simp_all add: case_prod_unfold)

lemma two_uploads_in_turn:
  assumes "inflight c = []"
  shows "snd (exec C P
      [FileUpload first error1 key1, Settle 0, Settle 0,
       FileUpload second error2 key2, Settle 0, Settle 0] c) =
    snd (handleFileUpload C P first error1 key1 (session c))
    @ snd (handleFileUpload C P second error2 key2
        (fst (handleFileUpload C P first error1 key1 (session c))))"
proof -
  let ?c1 = "c\<lparr>session := fst (handleFileUpload C P first error1 key1 (session c))\<rparr>"
  have idle: "inflight ?c1 = []" using assms by simp
  have "exec C P
      ([FileUpload first error1 key1, Settle 0, Settle 0]
       @ [FileUpload second error2 key2, Settle 0, Settle 0]) c =
    (case exec C P [FileUpload first error1 key1, Settle 0, Settle 0] c of
       (c1, calls1) \<Rightarrow>
         (case exec C P [FileUpload second error2 key2, Settle 0, Settle 0] c1 of
            (c2, calls2) \<Rightarrow> (c2, calls1 @ calls2)))"
    by (rule exec_append)
  then show ?thesis
    by (simp add: exec_uninterrupted [OF assms] exec_uninterrupted [OF idle]
        del: exec.simps)
qed

text \<open>What the settling of a promise does to the component.\<close>

lemma after_parse_success:
  assumes "after_parse C P stepKey x render s = (Inr s', calls)"
  obtains p where "parseReport C x = Inr p"
    and "parsedData s' = spread_with (parsedData render) stepKey (data p)"
    and "uploadStatus s' = spread_with (uploadStatus s) stepKey (Some Success)"
    and "errors s' = errors s"
  using assms
  by (cases "parseReport C x")
     (auto simp: after_parse_def Let_def split: if_splits)

lemma settle_cases:
  obtains
    (absent) "fst (settle C P n c) = c"
  | (caught) message where "n < length (inflight c)"
      "fst (settle C P n c) =
        c\<lparr>session := catch_block (task_key (inflight c ! n)) message (session c),
          inflight := take n (inflight c) @ drop (Suc n) (inflight c)\<rparr>"
  | (extracted) x where "n < length (inflight c)"
      "fst (settle C P n c) =
        c\<lparr>inflight := (inflight c)[n := (inflight c ! n)\<lparr>task_stage := Parsing x\<rparr>]\<rparr>"
  | (succeeded) x p s' where "n < length (inflight c)"
      "parseReport C x = Inr p"
      "parsedData s' = spread_with (parsedData (task_render (inflight c ! n)))
         (task_key (inflight c ! n)) (data p)"
      "uploadStatus s' = spread_with (uploadStatus (session c))
         (task_key (inflight c ! n)) (Some Success)"
      "errors s' = errors (session c)"
      "fst (settle C P n c) =
        c\<lparr>session := s', inflight := take n (inflight c) @ drop (Suc n) (inflight c)\<rparr>"
proof (cases "n < length (inflight c)")
  case False
  then show ?thesis using absent by (simp add: settle_def)
next
  case inside: True
  let ?t = "inflight c ! n"
  show ?thesis
  proof (cases "task_stage ?t")
    case Extracting
    obtain result calls where r: "after_extract C (task_file ?t) (task_key ?t) = (result, calls)"
      by (cases "after_extract C (task_file ?t) (task_key ?t)") auto
    show ?thesis
    proof (cases result)
      case (Inl message)
      then show ?thesis
        using caught [of message] inside Extracting r by (simp add: settle_def)
    next
      case (Inr x)
      then show ?thesis
        using extracted [of x] inside Extracting r by (simp add: settle_def)
    qed
  next
    case (Parsing x)
    obtain result calls where r:
      "after_parse C P (task_key ?t) x (task_render ?t) (session c) = (result, calls)"
      by (cases "after_parse C P (task_key ?t) x (task_render ?t) (session c)") auto
    show ?thesis
    proof (cases result)
      case (Inl message)
      then show ?thesis
        using caught [of message] inside Parsing r by (simp add: settle_def)
    next
      case (Inr s')
      with r have ok: "after_parse C P (task_key ?t) x (task_render ?t) (session c) = (Inr s', calls)"
        by simp
      from after_parse_success [OF ok] obtain p where p: "parseReport C x = Inr p"
        "parsedData s' = spread_with (parsedData (task_render ?t)) (task_key ?t) (data p)"
        "uploadStatus s' = spread_with (uploadStatus (session c)) (task_key ?t) (Some Success)"
        "errors s' = errors (session c)"
        by blast
      show ?thesis
        using succeeded [OF inside p] inside Parsing ok by (simp add: settle_def)
    qed
  qed
qed

lemma others_subset: "set (take n xs @ drop (Suc n) xs) \<subseteq> set xs"
  using set_take_subset [of n xs] set_drop_subset [of "Suc n" xs] by auto

text \<open>
  \<open>payloads_kept\<close> holds of the mounted component and is preserved by every event that
  does not start an upload while an upload to the other slot is in flight.
\<close>

lemma payloads_keptI:
  assumes "\<And>k. lookup_key (uploadStatus (session c)) k = Some Success
      \<Longrightarrow> lookup_key (parsedData (session c)) k \<noteq> None"
    and "\<And>t k. t \<in> set (inflight c) \<Longrightarrow> k \<noteq> task_key t
      \<Longrightarrow> lookup_key (uploadStatus (session c)) k = Some Success
      \<Longrightarrow> lookup_key (parsedData (task_render t)) k \<noteq> None"
    and "\<And>t u. t \<in> set (inflight c) \<Longrightarrow> u \<in> set (inflight c) \<Longrightarrow> task_key t = task_key u"
  shows "payloads_kept c"
  unfolding payloads_kept_def using assms by blast

lemma payloads_kept_session:
  assumes "payloads_kept c" and "lookup_key (uploadStatus (session c)) k = Some Success"
  shows "lookup_key (parsedData (session c)) k \<noteq> None"
  using assms unfolding payloads_kept_def by blast

lemma payloads_kept_render:
  assumes "payloads_kept c" and "t \<in> set (inflight c)" and "k \<noteq> task_key t"
    and "lookup_key (uploadStatus (session c)) k = Some Success"
  shows "lookup_key (parsedData (task_render t)) k \<noteq> None"
  using assms unfolding payloads_kept_def by blast

lemma payloads_kept_one_slot:
  assumes "payloads_kept c" and "t \<in> set (inflight c)" and "u \<in> set (inflight c)"
  shows "task_key t = task_key u"
  using assms unfolding payloads_kept_def by blast

lemma settle_keeps_payloads:
  assumes truthy_data: "\<forall>x p. parseReport C x = Inr p \<longrightarrow> data p \<noteq> None"
    and inv: "payloads_kept c"
  shows "payloads_kept (fst (settle C P n c))"
proof (cases rule: settle_cases [of C P n c])
  case absent
  then show ?thesis using inv by simp
next
  case (caught message)
  let ?k = "task_key (inflight c ! n)"
  let ?c' = "c\<lparr>session := catch_block ?k message (session c),
      inflight := take n (inflight c) @ drop (Suc n) (inflight c)\<rparr>"
  have left: "t \<in> set (inflight ?c') \<Longrightarrow> t \<in> set (inflight c)" for t
    using others_subset [of n "inflight c"] by auto
  have status: "lookup_key (uploadStatus (session ?c')) k = Some Success
      \<Longrightarrow> lookup_key (uploadStatus (session c)) k = Some Success" for k
    by (simp add: catch_block_fields lookup_spread split: if_splits)
  have payloads: "parsedData (session ?c') = parsedData (session c)"
    by (simp add: catch_block_fields)
  have "payloads_kept ?c'"
  proof (rule payloads_keptI)
    fix k assume "lookup_key (uploadStatus (session ?c')) k = Some Success"
    then show "lookup_key (parsedData (session ?c')) k \<noteq> None"
      unfolding payloads using payloads_kept_session [OF inv status] by blast
  next
    fix t k assume "t \<in> set (inflight ?c')" "k \<noteq> task_key t"
      "lookup_key (uploadStatus (session ?c')) k = Some Success"
    then show "lookup_key (parsedData (task_render t)) k \<noteq> None"
      using payloads_kept_render [OF inv left _ status] by blast
  next
    fix t u assume "t \<in> set (inflight ?c')" "u \<in> set (inflight ?c')"
    then show "task_key t = task_key u"
      using payloads_kept_one_slot [OF inv left left] by blast
  qed
  then show ?thesis unfolding caught(2) .
next
  case (extracted x)
  let ?t' = "(inflight c ! n)\<lparr>task_stage := Parsing x\<rparr>"
  let ?c' = "c\<lparr>inflight := (inflight c)[n := ?t']\<rparr>"
  have old: "inflight c ! n \<in> set (inflight c)"
    using extracted(1) by simp
  have members: "\<exists>t \<in> set (inflight c). task_key u = task_key t \<and> task_render u = task_render t"
    if "u \<in> set (inflight ?c')" for u
  proof (cases "u = ?t'")
    case True
    then show ?thesis using old by auto
  next
    case False
    with that set_update_subset_insert [of "inflight c" n ?t'] have "u \<in> set (inflight c)"
      by auto
    then show ?thesis by blast
  qed
  have "payloads_kept ?c'"
  proof (rule payloads_keptI)
    fix k assume "lookup_key (uploadStatus (session ?c')) k = Some Success"
    then show "lookup_key (parsedData (session ?c')) k \<noteq> None"
      using payloads_kept_session [OF inv, of k] by simp
  next
    fix u k assume u: "u \<in> set (inflight ?c')" and k: "k \<noteq> task_key u"
      and s: "lookup_key (uploadStatus (session ?c')) k = Some Success"
    from members [OF u] obtain t where t: "t \<in> set (inflight c)"
      "task_key u = task_key t" "task_render u = task_render t" by blast
    from payloads_kept_render [OF inv t(1), of k] k s t(2,3)
    show "lookup_key (parsedData (task_render u)) k \<noteq> None" by simp
  next
    fix u v assume u: "u \<in> set (inflight ?c')" and v: "v \<in> set (inflight ?c')"
    from members [OF u] obtain t where t: "t \<in> set (inflight c)" "task_key u = task_key t"
      by blast
    from members [OF v] obtain w where w: "w \<in> set (inflight c)" "task_key v = task_key w"
      by blast
    from payloads_kept_one_slot [OF inv t(1) w(1)] t(2) w(2)
    show "task_key u = task_key v" by simp
  qed
  then show ?thesis unfolding extracted(2) .
next
  case (succeeded x p s')
  let ?t = "inflight c ! n"
  let ?k = "task_key ?t"
  let ?c' = "c\<lparr>session := s', inflight := take n (inflight c) @ drop (Suc n) (inflight c)\<rparr>"
  have t: "?t \<in> set (inflight c)" using succeeded(1) by simp
  have d: "data p \<noteq> None" using truthy_data succeeded(2) by blast
  have left: "u \<in> set (inflight ?c') \<Longrightarrow> u \<in> set (inflight c)" for u
    using others_subset [of n "inflight c"] by auto
  have status: "lookup_key (uploadStatus (session ?c')) k = Some Success
      \<Longrightarrow> k \<noteq> ?k \<Longrightarrow> lookup_key (uploadStatus (session c)) k = Some Success" for k
    by (simp add: succeeded(4) lookup_spread)
  have "payloads_kept ?c'"
  proof (rule payloads_keptI)
    fix k assume s: "lookup_key (uploadStatus (session ?c')) k = Some Success"
    show "lookup_key (parsedData (session ?c')) k \<noteq> None"
    proof (cases "k = ?k")
      case True
      then show ?thesis using d by (simp add: succeeded(3) lookup_spread)
    next
      case False
      from payloads_kept_render [OF inv t False status [OF s False]] False
      show ?thesis by (simp add: succeeded(3) lookup_spread)
    qed
  next
    fix u k assume u: "u \<in> set (inflight ?c')" and k: "k \<noteq> task_key u"
      and s: "lookup_key (uploadStatus (session ?c')) k = Some Success"
    have same: "task_key u = ?k"
      by (rule payloads_kept_one_slot [OF inv left [OF u] t])
    from payloads_kept_render [OF inv left [OF u] k status [OF s]] k same
    show "lookup_key (parsedData (task_render u)) k \<noteq> None" by simp
  next
    fix u v assume "u \<in> set (inflight ?c')" "v \<in> set (inflight ?c')"
    then show "task_key u = task_key v"
      using payloads_kept_one_slot [OF inv left left] by blast
  qed
  then show ?thesis unfolding succeeded(6) .
qed

lemma fire_keeps_payloads:
  assumes truthy_data: "\<forall>x p. parseReport C x = Inr p \<longrightarrow> data p \<noteq> None"
    and inv: "payloads_kept c"
    and admitted: "case starts_upload ev of
        None \<Rightarrow> True
      | Some stepKey \<Rightarrow> list_all (\<lambda>t. task_key t = stepKey) (inflight c)"
  shows "payloads_kept (fst (fire C P ev c))"
proof (cases ev)
  case (FileUpload candidate error stepKey)
  show ?thesis
  proof (cases "truthy error")
    case True
    let ?c' = "c\<lparr>session := (session c)\<lparr>errors := spread_with (errors (session c)) stepKey error,
        uploadStatus := spread_with (uploadStatus (session c)) stepKey (Some Error)\<rparr>\<rparr>"
    have result: "fst (fire C P ev c) = ?c'"
      using True FileUpload by (simp add: start_upload_def)
    have status: "lookup_key (uploadStatus (session ?c')) k = Some Success
        \<Longrightarrow> lookup_key (uploadStatus (session c)) k = Some Success" for k
      by (simp add: lookup_spread split: if_splits)
    have "payloads_kept ?c'"
    proof (rule payloads_keptI)
      fix k assume s: "lookup_key (uploadStatus (session ?c')) k = Some Success"
      from payloads_kept_session [OF inv status [OF s]]
      show "lookup_key (parsedData (session ?c')) k \<noteq> None" by simp
    next
      fix t k assume t: "t \<in> set (inflight ?c')" and k: "k \<noteq> task_key t"
        and s: "lookup_key (uploadStatus (session ?c')) k = Some Success"
      from t have "t \<in> set (inflight c)" by simp
      from payloads_kept_render [OF inv this k status [OF s]]
      show "lookup_key (parsedData (task_render t)) k \<noteq> None" .
    next
      fix t u assume "t \<in> set (inflight ?c')" "u \<in> set (inflight ?c')"
      then have "t \<in> set (inflight c)" "u \<in> set (inflight c)" by simp_all
      then show "task_key t = task_key u"
        by (rule payloads_kept_one_slot [OF inv])
    qed
    then show ?thesis unfolding result .
  next
    case no_error: False
    show ?thesis
    proof (cases candidate)
      case None
      then show ?thesis using inv FileUpload no_error by (simp add: start_upload_def)
    next
      case (Some f)
      let ?new = "\<lparr>task_file = f, task_key = stepKey, task_render = session c,
          task_stage = Extracting\<rparr>"
      let ?c' = "c\<lparr>session := begin_processing stepKey (session c),
          inflight := inflight c @ [?new]\<rparr>"
      have result: "fst (fire C P ev c) = ?c'"
        using no_error FileUpload Some by (simp add: start_upload_def)
      from admitted FileUpload no_error Some
      have same: "t \<in> set (inflight c) \<Longrightarrow> task_key t = stepKey" for t
        by (simp add: list_all_iff)
      have status: "lookup_key (uploadStatus (session ?c')) k = Some Success
          \<Longrightarrow> lookup_key (uploadStatus (session c)) k = Some Success" for k
        by (simp add: begin_processing_fields lookup_spread split: if_splits)
      have payloads: "parsedData (session ?c') = parsedData (session c)"
        by (simp add: begin_processing_fields)
      have "payloads_kept ?c'"
      proof (rule payloads_keptI)
        fix k assume s: "lookup_key (uploadStatus (session ?c')) k = Some Success"
        from payloads_kept_session [OF inv status [OF s]]
        show "lookup_key (parsedData (session ?c')) k \<noteq> None"
          unfolding payloads .
      next
        fix t k assume t: "t \<in> set (inflight ?c')" and k: "k \<noteq> task_key t"
          and s: "lookup_key (uploadStatus (session ?c')) k = Some Success"
        show "lookup_key (parsedData (task_render t)) k \<noteq> None"
        proof (cases "t = ?new")
          case True
          then show ?thesis using payloads_kept_session [OF inv status [OF s]] by simp
        next
          case False
          with t have "t \<in> set (inflight c)" by simp
          from payloads_kept_render [OF inv this k status [OF s]] show ?thesis .
        qed
      next
        fix t u assume "t \<in> set (inflight ?c')" "u \<in> set (inflight ?c')"
        then have "task_key t = stepKey" "task_key u = stepKey"
          using same by auto
        then show "task_key t = task_key u" by simp
      qed
      then show ?thesis unfolding result .
    qed
  qed
next
  case (Reset stepKey)
  let ?c' = "c\<lparr>session := handleReset stepKey (session c)\<rparr>"
  have result: "fst (fire C P ev c) = ?c'"
    using Reset by simp
  have status: "lookup_key (uploadStatus (session ?c')) k = Some Success
      \<Longrightarrow> k \<noteq> stepKey \<and> lookup_key (uploadStatus (session c)) k = Some Success" for k
    by (simp add: handleReset_fields lookup_spread split: if_splits)
  have "payloads_kept ?c'"
  proof (rule payloads_keptI)
    fix k assume s: "lookup_key (uploadStatus (session ?c')) k = Some Success"
    from status [OF s] have other: "k \<noteq> stepKey"
      and old: "lookup_key (uploadStatus (session c)) k = Some Success" by simp_all
    from payloads_kept_session [OF inv old] other
    show "lookup_key (parsedData (session ?c')) k \<noteq> None"
      by (simp add: handleReset_fields lookup_spread)
  next
    fix t k assume t: "t \<in> set (inflight ?c')" and k: "k \<noteq> task_key t"
      and s: "lookup_key (uploadStatus (session ?c')) k = Some Success"
    from t have t': "t \<in> set (inflight c)" by simp
    from status [OF s] have old: "lookup_key (uploadStatus (session c)) k = Some Success"
      by simp
    from payloads_kept_render [OF inv t' k old]
    show "lookup_key (parsedData (task_render t)) k \<noteq> None" .
  next
    fix t u assume "t \<in> set (inflight ?c')" "u \<in> set (inflight ?c')"
    then have "t \<in> set (inflight c)" "u \<in> set (inflight c)" by simp_all
    then show "task_key t = task_key u"
      by (rule payloads_kept_one_slot [OF inv])
  qed
  then show ?thesis unfolding result .
next
  case (Settle n)
  then show ?thesis
    using settle_keeps_payloads [OF truthy_data inv] by simp
qed

lemma exec_keeps_payloads:
  assumes "\<forall>x p. parseReport C x = Inr p \<longrightarrow> data p \<noteq> None"
    and "payloads_kept c"
    and "no_cross_slot_overlap C P evs c"
  shows "payloads_kept (fst (exec C P evs c))"
  using assms(2,3)
proof (induction evs arbitrary: c)
  case Nil
  then show ?case by simp
next
  case (Cons ev evs)
  from Cons.prems(2) have admitted: "case starts_upload ev of
        None \<Rightarrow> True
      | Some stepKey \<Rightarrow> list_all (\<lambda>t. task_key t = stepKey) (inflight c)"
    and rest: "no_cross_slot_overlap C P evs (fst (fire C P ev c))"
    by simp_all
  have "fst (exec C P (ev # evs) c) = fst (exec C P evs (fst (fire C P ev c)))"
    by (simp add: case_prod_unfold)
  then show ?case
    using Cons.IH [OF fire_keeps_payloads [OF assms(1) Cons.prems(1) admitted] rest] by simp
qed

lemma mounted_payloads_kept: "payloads_kept mounted"
  unfolding payloads_kept_def
proof (intro conjI allI ballI impI)
  fix k :: step_key
  assume "lookup_key (uploadStatus (session mounted)) k = Some Success"
  then show "lookup_key (parsedData (session mounted)) k \<noteq> None"
    by (cases k) (simp_all add: mounted_def initial_def)
qed (simp_all add: mounted_def)

text \<open>
  \<open>errors_match k\<close> holds of the mounted component and is preserved by every event that
  does not write to slot \<open>k\<close> while an upload to slot \<open>k\<close> is in flight.
\<close>

lemma count_list_without:
  assumes "n < length ks"
  shows "count_list (take n ks @ drop (Suc n) ks) k
    = count_list ks k - (if ks ! n = k then 1 else 0)"
proof -
  have "count_list ks k = count_list (take n ks @ ks ! n # drop (Suc n) ks) k"
    using id_take_nth_drop [OF assms] by simp
  then show ?thesis by simp
qed

lemma keys_restaged:
  assumes "n < length xs"
  shows "map task_key (xs[n := (xs ! n)\<lparr>task_stage := st\<rparr>]) = map task_key xs"
  using assms by (simp add: map_update list_update_same_conv)

lemma settle_keeps_errors_match:
  assumes inv: "errors_match k c"
  shows "errors_match k (fst (settle C P n c))"
proof (cases rule: settle_cases [of C P n c])
  case absent
  then show ?thesis using inv by simp
next
  case (caught message)
  let ?ks = "map task_key (inflight c)"
  let ?c' = "c\<lparr>session := catch_block (task_key (inflight c ! n)) message (session c),
      inflight := take n (inflight c) @ drop (Suc n) (inflight c)\<rparr>"
  have n: "n < length ?ks" using caught(1) by simp
  have key: "task_key (inflight c ! n) = ?ks ! n" using caught(1) by simp
  have keys': "map task_key (inflight ?c') = take n ?ks @ drop (Suc n) ?ks"
    by (simp add: take_map drop_map)
  have count: "count_list (take n ?ks @ drop (Suc n) ?ks) k
      = count_list ?ks k - (if ?ks ! n = k then 1 else 0)"
    by (rule count_list_without [OF n])
  have once: "count_list ?ks k \<le> 1" using inv by (simp add: errors_match_def)
  have less: "count_list (take n ?ks @ drop (Suc n) ?ks) k \<le> 1"
    using once count by simp
  have subset: "k \<in> set (take n ?ks @ drop (Suc n) ?ks) \<Longrightarrow> k \<in> set ?ks"
    using others_subset [of n ?ks] by blast
  have "errors_match k ?c'"
  proof (cases "?ks ! n = k")
    case True
    from once count True have "count_list (take n ?ks @ drop (Suc n) ?ks) k = 0" by simp
    then have gone: "k \<notin> set (take n ?ks @ drop (Suc n) ?ks)"
      by (simp add: count_list_0_iff)
    have session': "lookup_key (errors (session ?c')) k = Some message"
      "lookup_key (uploadStatus (session ?c')) k = Some Error"
      using True key by (simp_all add: catch_block_fields lookup_spread)
    show ?thesis
      unfolding errors_match_def keys' session' using gone less by blast
  next
    case False
    have session': "lookup_key (errors (session ?c')) k = lookup_key (errors (session c)) k"
      "lookup_key (uploadStatus (session ?c')) k = lookup_key (uploadStatus (session c)) k"
      using False key by (simp_all add: catch_block_fields lookup_spread)
    show ?thesis
      unfolding errors_match_def keys' session'
      using inv subset less unfolding errors_match_def by blast
  qed
  then show ?thesis unfolding caught(2) .
next
  case (extracted x)
  show ?thesis
    unfolding extracted(2) using inv
    by (simp add: errors_match_def keys_restaged [OF extracted(1)])
next
  case (succeeded x p s')
  let ?ks = "map task_key (inflight c)"
  let ?c' = "c\<lparr>session := s', inflight := take n (inflight c) @ drop (Suc n) (inflight c)\<rparr>"
  have n: "n < length ?ks" using succeeded(1) by simp
  have key: "task_key (inflight c ! n) = ?ks ! n" using succeeded(1) by simp
  have member: "?ks ! n \<in> set ?ks" using n by (rule nth_mem)
  have keys': "map task_key (inflight ?c') = take n ?ks @ drop (Suc n) ?ks"
    by (simp add: take_map drop_map)
  have count: "count_list (take n ?ks @ drop (Suc n) ?ks) k
      = count_list ?ks k - (if ?ks ! n = k then 1 else 0)"
    by (rule count_list_without [OF n])
  have once: "count_list ?ks k \<le> 1" using inv by (simp add: errors_match_def)
  have less: "count_list (take n ?ks @ drop (Suc n) ?ks) k \<le> 1"
    using once count by simp
  have subset: "k \<in> set (take n ?ks @ drop (Suc n) ?ks) \<Longrightarrow> k \<in> set ?ks"
    using others_subset [of n ?ks] by blast
  have errors': "lookup_key (errors (session ?c')) k = lookup_key (errors (session c)) k"
    by (simp add: succeeded(5))
  have "errors_match k ?c'"
  proof (cases "?ks ! n = k")
    case True
    with member inv have none: "lookup_key (errors (session c)) k = None"
      by (simp add: errors_match_def)
    have status': "lookup_key (uploadStatus (session ?c')) k = Some Success"
      using True key by (simp add: succeeded(4) lookup_spread)
    show ?thesis
      unfolding errors_match_def keys' errors' status' none using less by simp
  next
    case False
    have status': "lookup_key (uploadStatus (session ?c')) k
        = lookup_key (uploadStatus (session c)) k"
      using False key by (simp add: succeeded(4) lookup_spread)
    show ?thesis
      unfolding errors_match_def keys' errors' status'
      using inv subset less unfolding errors_match_def by blast
  qed
  then show ?thesis unfolding succeeded(6) .
qed

lemma fire_keeps_errors_match:
  assumes inv: "errors_match k c"
    and admitted: "writes_slot ev = Some k \<longrightarrow> list_all (\<lambda>t. task_key t \<noteq> k) (inflight c)"
  shows "errors_match k (fst (fire C P ev c))"
proof (cases ev)
  case (FileUpload candidate error stepKey)
  show ?thesis
  proof (cases "truthy error")
    case True
    then have set: "error \<noteq> None" by (cases error) simp_all
    show ?thesis
    proof (cases "stepKey = k")
      case same: True
      with admitted FileUpload True have "k \<notin> set (map task_key (inflight c))"
        by (auto simp: list_all_iff)
      then show ?thesis
        using inv FileUpload True same set
        by (simp add: start_upload_def errors_match_def lookup_spread)
    next
      case False
      then show ?thesis
        using inv FileUpload True
        by (simp add: start_upload_def errors_match_def lookup_spread)
    qed
  next
    case no_error: False
    show ?thesis
    proof (cases candidate)
      case None
      then show ?thesis using inv FileUpload no_error by (simp add: start_upload_def)
    next
      case (Some f)
      show ?thesis
      proof (cases "stepKey = k")
        case same: True
        with admitted FileUpload no_error Some have gone: "k \<notin> set (map task_key (inflight c))"
          by (auto simp: list_all_iff)
        then have "count_list (map task_key (inflight c)) k = 0"
          by (simp add: count_list_0_iff)
        then show ?thesis
          using inv FileUpload no_error Some same
          by (simp add: start_upload_def errors_match_def begin_processing_fields lookup_spread)
      next
        case False
        then show ?thesis
          using inv FileUpload no_error Some
          by (simp add: start_upload_def errors_match_def begin_processing_fields lookup_spread)
      qed
    qed
  qed
next
  case (Reset stepKey)
  then show ?thesis
    using inv by (simp add: errors_match_def handleReset_fields lookup_spread)
next
  case (Settle n)
  then show ?thesis
    using settle_keeps_errors_match [OF inv] by simp
qed

lemma exec_keeps_errors_match:
  assumes "errors_match k c" and "no_same_slot_overlap k C P evs c"
  shows "errors_match k (fst (exec C P evs c))"
  using assms
proof (induction evs arbitrary: c)
  case Nil
  then show ?case by simp
next
  case (Cons ev evs)
  from Cons.prems(2)
  have admitted: "writes_slot ev = Some k \<longrightarrow> list_all (\<lambda>t. task_key t \<noteq> k) (inflight c)"
    and rest: "no_same_slot_overlap k C P evs (fst (fire C P ev c))"
    by simp_all
  have "fst (exec C P (ev # evs) c) = fst (exec C P evs (fst (fire C P ev c)))"
    by (simp add: case_prod_unfold)
  then show ?case
    using Cons.IH [OF fire_keeps_errors_match [OF Cons.prems(1) admitted] rest] by simp
qed

lemma mounted_errors_match: "errors_match k mounted"
  by (cases k) (simp_all add: errors_match_def mounted_def initial_def)

text \<open>The example parser never resolves to a null payload.\<close>

lemma example_payloads_truthy:
  "\<forall>x p. parseReport example_collaborators x = Inr p \<longrightarrow> data p \<noteq> None"
  by (auto simp: example_collaborators_def split: option.splits if_splits)

section \<open>A null file without a selection error\<close>

text \<open>
  C10. A call of \<^verbatim>\<open>handleFileUpload\<close> with a null file and no selection error (\<^verbatim>\<open>null\<close> or
  the empty string, both falsy) changes nothing: the whole state (statuses, parsed
  payloads, errors, current step) is the one before, and no call is made, neither to a
  collaborator nor to \<^verbatim>\<open>onPartialData\<close> or \<^verbatim>\<open>onComplete\<close>.
\<close>

theorem null_file_is_noop:
  assumes "\<not> truthy error"
  shows "handleFileUpload C P None error stepKey s = (s, [])"
  using assms by (simp add: handleFileUpload_def)

theorem null_file_is_noop_witness:
  "\<not> truthy None
   \<and> handleFileUpload example_collaborators example_props None None Performance initial
       = (initial, [])
   \<and> \<not> truthy (Some [])
   \<and> handleFileUpload example_collaborators example_props None (Some []) Performance initial
       = (initial, [])"
  using null_file_is_noop [of None example_collaborators example_props Performance initial]
    null_file_is_noop [of "Some []" example_collaborators example_props Performance initial]
  by simp

section \<open>The successful path\<close>

text \<open>
  C7. When there is no selection error, the extractor returns a text of at least 100
  characters, the identified type equals the \<^verbatim>\<open>expectedType\<close> of the slot's step and the
  parser resolves, the slot ends in \<^verbatim>\<open>'success'\<close>, its \<^verbatim>\<open>parsedData\<close> is the parser's
  \<^verbatim>\<open>data\<close>, its error is null, and (the prop being passed) \<^verbatim>\<open>onPartialData\<close> is called
  exactly once in that submission, with the slot's key and that payload.
\<close>

theorem successful_upload:
  assumes "\<not> truthy error"
    and "extractTextFromPDF C f = Inr x"
    and "fullText x = Some txt"
    and "100 \<le> length txt"
    and "step \<in> set STEPS"
    and "optional_type (identifyReportType C txt) = Some (expectedType step)"
    and "parseReport C x = Inr p"
    and "onPartialData P"
  shows "lookup_key (uploadStatus (fst (handleFileUpload C P (Some f) error (key step) s))) (key step)
           = Some Success
       \<and> lookup_key (parsedData (fst (handleFileUpload C P (Some f) error (key step) s))) (key step)
           = data p
       \<and> lookup_key (errors (fst (handleFileUpload C P (Some f) error (key step) s))) (key step)
           = None
       \<and> filter is_onPartialData (snd (handleFileUpload C P (Some f) error (key step) s))
           = [Call_onPartialData (key step) (data p)]"
proof -
  note found = find_step [OF assms(5)]
  have state: "fst (handleFileUpload C P (Some f) error (key step) s) =
    s\<lparr>currentStep := (if currentStep s < 2 then currentStep s + 1 else currentStep s),
      uploadStatus := spread_with (uploadStatus s) (key step) (Some Success),
      parsedData := spread_with (parsedData s) (key step) (data p),
      errors := spread_with (errors s) (key step) None\<rparr>"
    by (rule upload_success_state [OF assms(1-4) found assms(6,7)])
  obtain other where other: "other \<noteq> key step"
    by (cases "key step") auto
  have calls: "snd (handleFileUpload C P (Some f) error (key step) s) =
    [Call_extractTextFromPDF f, Call_identifyReportType txt, Call_parseReport x]
    @ (if onPartialData P then [Call_onPartialData (key step) (data p)] else [])
    @ (if onComplete P \<and> lookup_key (parsedData s) other \<noteq> None
       then [Call_onComplete (spread_with (parsedData s) (key step) (data p))] else [])"
    by (rule upload_success_calls [OF assms(1-4) found assms(6,7) other])
  show ?thesis
    unfolding state calls using assms(8) by (simp add: lookup_spread_same)
qed

theorem successful_upload_witness:
  "lookup_key (uploadStatus (fst (handleFileUpload example_collaborators example_props
       (Some ''allocation.pdf'') None Asset_allocation initial))) Asset_allocation = Some Success
   \<and> lookup_key (parsedData (fst (handleFileUpload example_collaborators example_props
       (Some ''allocation.pdf'') None Asset_allocation initial))) Asset_allocation = Some 120
   \<and> lookup_key (errors (fst (handleFileUpload example_collaborators example_props
       (Some ''allocation.pdf'') None Asset_allocation initial))) Asset_allocation = None
   \<and> filter is_onPartialData (snd (handleFileUpload example_collaborators example_props
       (Some ''allocation.pdf'') None Asset_allocation initial))
       = [Call_onPartialData Asset_allocation (Some 120)]"
proof -
  let ?step = "\<lparr>step_id = 1, key = Asset_allocation, title = ''Asset Allocation Report'',
      description = ''Investment Allocation PDF'', expectedType = ''asset_allocation''\<rparr>"
  let ?x = "\<lparr>fullText = Some (replicate 120 CHR ''a'')\<rparr>"
  have h1: "\<not> truthy None" by simp
  have h2: "extractTextFromPDF example_collaborators ''allocation.pdf'' = Inr ?x"
    by (simp add: example_collaborators_def)
  have h3: "fullText ?x = Some (replicate 120 CHR ''a'')" by simp
  have h4: "100 \<le> length (replicate 120 CHR ''a'')" by simp
  have h5: "?step \<in> set STEPS" by (simp add: STEPS_def)
  have h6: "optional_type (identifyReportType example_collaborators (replicate 120 CHR ''a''))
      = Some (expectedType ?step)"
    by (simp add: example_collaborators_def)
  have h7: "parseReport example_collaborators ?x = Inr \<lparr>data = Some 120\<rparr>"
    by (simp add: example_collaborators_def)
  have h8: "onPartialData example_props" by (simp add: example_props_def)
  from successful_upload [OF h1 h2 h3 h4 h5 h6 h7 h8, of initial]
  show ?thesis by simp
qed

section \<open>The extraction floor\<close>

text \<open>
  C6. When the extractor returns a text of at most 99 characters, the slot ends in
  \<^verbatim>\<open>'error'\<close> with the extraction-failure message and \<^verbatim>\<open>identifyReportType\<close> is not called;
  when the text has 100 characters or more, \<^verbatim>\<open>identifyReportType\<close> is called on it.
\<close>

theorem extraction_floor:
  assumes "\<not> truthy error"
    and "extractTextFromPDF C f = Inr x"
    and "fullText x = Some txt"
  shows "(length txt \<le> 99 \<longrightarrow>
            lookup_key (uploadStatus (fst (handleFileUpload C P (Some f) error stepKey s))) stepKey
              = Some Error
          \<and> lookup_key (errors (fst (handleFileUpload C P (Some f) error stepKey s))) stepKey
              = Some ''Could not extract text from PDF. The file may be image-based or corrupted.''
          \<and> filter is_identifyReportType (snd (handleFileUpload C P (Some f) error stepKey s)) = [])
       \<and> (100 \<le> length txt \<longrightarrow>
            filter is_identifyReportType (snd (handleFileUpload C P (Some f) error stepKey s))
              = [Call_identifyReportType txt])"
proof (intro conjI impI)
  assume short: "length txt \<le> 99"
  then have "fullText x = None \<or> (\<exists>t. fullText x = Some t \<and> length t < 100)"
    using assms(3) by auto
  note result = upload_insufficient [OF assms(1,2) this, of P stepKey s]
  show "lookup_key (uploadStatus (fst (handleFileUpload C P (Some f) error stepKey s))) stepKey
      = Some Error"
    by (simp add: result catch_block_fields lookup_spread_same)
  show "lookup_key (errors (fst (handleFileUpload C P (Some f) error stepKey s))) stepKey
      = Some ''Could not extract text from PDF. The file may be image-based or corrupted.''"
    by (simp add: result catch_block_fields lookup_spread_same extraction_message_def)
  show "filter is_identifyReportType (snd (handleFileUpload C P (Some f) error stepKey s)) = []"
    by (simp add: result)
next
  assume "100 \<le> length txt"
  then show "filter is_identifyReportType (snd (handleFileUpload C P (Some f) error stepKey s))
      = [Call_identifyReportType txt]"
    by (rule upload_identifies [OF assms])
qed

theorem extraction_floor_witness:
  "(lookup_key (uploadStatus (fst (handleFileUpload example_collaborators example_props
        (Some ''short.pdf'') None Performance initial))) Performance = Some Error
    \<and> lookup_key (errors (fst (handleFileUpload example_collaborators example_props
        (Some ''short.pdf'') None Performance initial))) Performance
        = Some ''Could not extract text from PDF. The file may be image-based or corrupted.''
    \<and> filter is_identifyReportType (snd (handleFileUpload example_collaborators example_props
        (Some ''short.pdf'') None Performance initial)) = [])
   \<and> filter is_identifyReportType (snd (handleFileUpload example_collaborators example_props
        (Some ''performance.pdf'') None Performance initial))
        = [Call_identifyReportType (replicate 100 CHR ''p'')]"
proof -
  have h1: "\<not> truthy None" by simp
  have short: "extractTextFromPDF example_collaborators ''short.pdf''
      = Inr \<lparr>fullText = Some (replicate 99 CHR ''p'')\<rparr>"
    by (simp add: example_collaborators_def)
  have enough: "extractTextFromPDF example_collaborators ''performance.pdf''
      = Inr \<lparr>fullText = Some (replicate 100 CHR ''p'')\<rparr>"
    by (simp add: example_collaborators_def)
  have t99: "fullText \<lparr>fullText = Some (replicate 99 CHR ''p'')\<rparr> = Some (replicate 99 CHR ''p'')"
    by simp
  have t100: "fullText \<lparr>fullText = Some (replicate 100 CHR ''p'')\<rparr> = Some (replicate 100 CHR ''p'')"
    by simp
  have len99: "length (replicate 99 CHR ''p'') \<le> 99" by simp
  have len100: "100 \<le> length (replicate 100 CHR ''p'')" by simp
  from extraction_floor [OF h1 short t99, of example_props Performance initial] len99
    extraction_floor [OF h1 enough t100, of example_props Performance initial] len100
  show ?thesis by blast
qed

section \<open>The type check\<close>

text \<open>
  C4. When the identified type differs from the \<^verbatim>\<open>expectedType\<close> of the slot's step (a
  null identification or a null type included), the slot ends in \<^verbatim>\<open>'error'\<close>; the message
  is built from the detected name and the step's title, the detected name being the
  identification's \<^verbatim>\<open>name\<close> when that is a non-empty string and the phrase
  \<^verbatim>\<open>Unknown report type\<close> otherwise; and \<^verbatim>\<open>parseReport\<close> is not called in that submission.
\<close>

theorem type_mismatch:
  assumes "\<not> truthy error"
    and "extractTextFromPDF C f = Inr x"
    and "fullText x = Some txt"
    and "100 \<le> length txt"
    and "step \<in> set STEPS"
    and "optional_type (identifyReportType C txt) \<noteq> Some (expectedType step)"
  shows "lookup_key (uploadStatus (fst (handleFileUpload C P (Some f) error (key step) s))) (key step)
           = Some Error
       \<and> lookup_key (errors (fst (handleFileUpload C P (Some f) error (key step) s))) (key step)
           = Some (''This appears to be a '' @ actualName (identifyReportType C txt)
                   @ ''. Please upload a '' @ title step @ '' for this step.'')
       \<and> (truthy (optional_name (identifyReportType C txt)) \<longrightarrow>
            Some (actualName (identifyReportType C txt)) = optional_name (identifyReportType C txt))
       \<and> (\<not> truthy (optional_name (identifyReportType C txt)) \<longrightarrow>
            actualName (identifyReportType C txt) = ''Unknown report type'')
       \<and> filter is_parseReport (snd (handleFileUpload C P (Some f) error (key step) s)) = []"
proof -
  note result = upload_mismatch [OF assms(1-4) find_step [OF assms(5)] assms(6), of P s]
  have named: "truthy (optional_name i) \<longrightarrow> Some (actualName i) = optional_name i"
    for i by (cases "optional_name i") auto
  have unnamed: "\<not> truthy (optional_name i) \<longrightarrow> actualName i = ''Unknown report type''"
    for i by (cases "optional_name i") auto
  show ?thesis
    using named unnamed
    by (simp add: result catch_block_fields lookup_spread_same mismatch_message_def
        del: actualName.simps)
qed

theorem type_mismatch_witness:
  "lookup_key (uploadStatus (fst (handleFileUpload example_collaborators example_props
       (Some ''performance.pdf'') None Asset_allocation initial))) Asset_allocation = Some Error
   \<and> lookup_key (errors (fst (handleFileUpload example_collaborators example_props
       (Some ''performance.pdf'') None Asset_allocation initial))) Asset_allocation
       = Some ''This appears to be a Performance Report. Please upload a Asset Allocation Report for this step.''
   \<and> filter is_parseReport (snd (handleFileUpload example_collaborators example_props
       (Some ''performance.pdf'') None Asset_allocation initial)) = []
   \<and> lookup_key (errors (fst (handleFileUpload example_collaborators example_props
       (Some ''letter.pdf'') None Asset_allocation initial))) Asset_allocation
       = Some ''This appears to be a Unknown report type. Please upload a Asset Allocation Report for this step.''"
proof -
  let ?step = "\<lparr>step_id = 1, key = Asset_allocation, title = ''Asset Allocation Report'',
      description = ''Investment Allocation PDF'', expectedType = ''asset_allocation''\<rparr>"
  have h1: "\<not> truthy None" by simp
  have p2: "extractTextFromPDF example_collaborators ''performance.pdf''
      = Inr \<lparr>fullText = Some (replicate 100 CHR ''p'')\<rparr>"
    by (simp add: example_collaborators_def)
  have p3: "fullText \<lparr>fullText = Some (replicate 100 CHR ''p'')\<rparr> = Some (replicate 100 CHR ''p'')"
    by simp
  have p4: "100 \<le> length (replicate 100 CHR ''p'')" by simp
  have h5: "?step \<in> set STEPS" by (simp add: STEPS_def)
  have p6: "optional_type (identifyReportType example_collaborators (replicate 100 CHR ''p''))
      \<noteq> Some (expectedType ?step)"
    by (simp add: example_collaborators_def)
  have pn: "actualName (identifyReportType example_collaborators (replicate 100 CHR ''p''))
      = ''Performance Report''"
    by (simp add: example_collaborators_def)
  have l2: "extractTextFromPDF example_collaborators ''letter.pdf''
      = Inr \<lparr>fullText = Some (replicate 100 CHR ''x'')\<rparr>"
    by (simp add: example_collaborators_def)
  have l3: "fullText \<lparr>fullText = Some (replicate 100 CHR ''x'')\<rparr> = Some (replicate 100 CHR ''x'')"
    by simp
  have l4: "100 \<le> length (replicate 100 CHR ''x'')" by simp
  have l6: "optional_type (identifyReportType example_collaborators (replicate 100 CHR ''x''))
      \<noteq> Some (expectedType ?step)"
    by (simp add: example_collaborators_def)
  have ln: "actualName (identifyReportType example_collaborators (replicate 100 CHR ''x''))
      = ''Unknown report type''"
    by (simp add: example_collaborators_def)
  from type_mismatch [OF h1 p2 p3 p4 h5 p6, of example_props initial]
    type_mismatch [OF h1 l2 l3 l4 h5 l6, of example_props initial]
  show ?thesis
    unfolding pn ln by simp
qed

section \<open>Failures stay in their slot\<close>

text \<open>
  C9. \<^verbatim>\<open>handleFileUpload\<close> is a total function to a state: whatever is thrown inside the
  \<^verbatim>\<open>try\<close> block is caught by \<open>catch_block\<close>, and nothing before the \<^verbatim>\<open>try\<close> throws, so
  no exception leaves the call. For each kind of failure (a selection error; the
  extractor rejecting or returning too little text; a type mismatch; the parser
  rejecting) the slot ends in \<^verbatim>\<open>'error'\<close> with the failure's message recorded, and the
  other slot's status, parsed payload and error are the ones before the submission.
\<close>

theorem failures_stay_local:
  assumes "handleFileUpload C P candidate error stepKey s = (s', calls)"
    and "other \<noteq> stepKey"
  shows "lookup_key (uploadStatus s') other = lookup_key (uploadStatus s) other
       \<and> lookup_key (parsedData s') other = lookup_key (parsedData s) other
       \<and> lookup_key (errors s') other = lookup_key (errors s) other
       \<and> (truthy error \<longrightarrow>
            lookup_key (uploadStatus s') stepKey = Some Error
          \<and> lookup_key (errors s') stepKey = error)
       \<and> (\<not> truthy error \<and> candidate = Some f \<and> extractTextFromPDF C f = Inl message \<longrightarrow>
            lookup_key (uploadStatus s') stepKey = Some Error
          \<and> lookup_key (errors s') stepKey = Some message)
       \<and> (\<not> truthy error \<and> candidate = Some f \<and> extractTextFromPDF C f = Inr x
            \<and> (fullText x = None \<or> (\<exists>t. fullText x = Some t \<and> length t < 100)) \<longrightarrow>
            lookup_key (uploadStatus s') stepKey = Some Error
          \<and> lookup_key (errors s') stepKey = Some extraction_message)
       \<and> (\<not> truthy error \<and> candidate = Some f \<and> extractTextFromPDF C f = Inr x
            \<and> fullText x = Some content \<and> 100 \<le> length content
            \<and> step \<in> set STEPS \<and> key step = stepKey
            \<and> optional_type (identifyReportType C content) \<noteq> Some (expectedType step) \<longrightarrow>
            lookup_key (uploadStatus s') stepKey = Some Error
          \<and> lookup_key (errors s') stepKey
              = Some (mismatch_message (actualName (identifyReportType C content)) (title step)))
       \<and> (\<not> truthy error \<and> candidate = Some f \<and> extractTextFromPDF C f = Inr x
            \<and> fullText x = Some content \<and> 100 \<le> length content
            \<and> step \<in> set STEPS \<and> key step = stepKey
            \<and> optional_type (identifyReportType C content) = Some (expectedType step)
            \<and> parseReport C x = Inl message \<longrightarrow>
            lookup_key (uploadStatus s') stepKey = Some Error
          \<and> lookup_key (errors s') stepKey = Some message)"
proof -
  have s': "s' = fst (handleFileUpload C P candidate error stepKey s)"
    by (simp add: assms(1))
  have frame: "lookup_key (uploadStatus s') other = lookup_key (uploadStatus s) other
       \<and> lookup_key (parsedData s') other = lookup_key (parsedData s) other
       \<and> lookup_key (errors s') other = lookup_key (errors s) other"
    unfolding s' by (rule upload_frame [OF assms(2)])
  have selection: "truthy error \<longrightarrow>
      lookup_key (uploadStatus s') stepKey = Some Error \<and> lookup_key (errors s') stepKey = error"
    unfolding s' by (simp add: upload_selection_error lookup_spread_same)
  have rejected: "\<not> truthy error \<and> candidate = Some f \<and> extractTextFromPDF C f = Inl message \<longrightarrow>
      lookup_key (uploadStatus s') stepKey = Some Error
      \<and> lookup_key (errors s') stepKey = Some message"
    unfolding s' by (simp add: upload_rejected catch_block_fields lookup_spread_same)
  have insufficient: "\<not> truthy error \<and> candidate = Some f \<and> extractTextFromPDF C f = Inr x
      \<and> (fullText x = None \<or> (\<exists>t. fullText x = Some t \<and> length t < 100)) \<longrightarrow>
      lookup_key (uploadStatus s') stepKey = Some Error
      \<and> lookup_key (errors s') stepKey = Some extraction_message"
    unfolding s' using upload_insufficient [of error C f x P stepKey s]
    by (auto simp: catch_block_fields lookup_spread_same)
  have mismatch: "\<not> truthy error \<and> candidate = Some f \<and> extractTextFromPDF C f = Inr x
      \<and> fullText x = Some content \<and> 100 \<le> length content
      \<and> step \<in> set STEPS \<and> key step = stepKey
      \<and> optional_type (identifyReportType C content) \<noteq> Some (expectedType step) \<longrightarrow>
      lookup_key (uploadStatus s') stepKey = Some Error
      \<and> lookup_key (errors s') stepKey
          = Some (mismatch_message (actualName (identifyReportType C content)) (title step))"
    unfolding s' using upload_mismatch [of error C f x _ stepKey step P s] find_step [of step]
    by (auto simp: catch_block_fields lookup_spread_same simp del: actualName.simps)
  have parse_failure: "\<not> truthy error \<and> candidate = Some f \<and> extractTextFromPDF C f = Inr x
      \<and> fullText x = Some content \<and> 100 \<le> length content
      \<and> step \<in> set STEPS \<and> key step = stepKey
      \<and> optional_type (identifyReportType C content) = Some (expectedType step)
      \<and> parseReport C x = Inl message \<longrightarrow>
      lookup_key (uploadStatus s') stepKey = Some Error
      \<and> lookup_key (errors s') stepKey = Some message"
    unfolding s'
    using upload_parse_failure [of error C f x _ stepKey step message P s] find_step [of step]
    by (auto simp: catch_block_fields lookup_spread_same)
  from frame selection rejected insufficient mismatch parse_failure show ?thesis
    by blast
qed

theorem failures_stay_local_witness:
  "lookup_key (uploadStatus (fst (handleFileUpload example_collaborators example_props
       None (Some ''Only PDF files are accepted'') Performance initial))) Performance = Some Error
   \<and> lookup_key (errors (fst (handleFileUpload example_collaborators example_props
       None (Some ''Only PDF files are accepted'') Performance initial))) Performance
       = Some ''Only PDF files are accepted''
   \<and> lookup_key (uploadStatus (fst (handleFileUpload example_collaborators example_props
       None (Some ''Only PDF files are accepted'') Performance initial))) Asset_allocation
       = Some Idle
   \<and> lookup_key (uploadStatus (fst (handleFileUpload example_collaborators example_props
       (Some ''scan.pdf'') None Performance initial))) Performance = Some Error
   \<and> lookup_key (errors (fst (handleFileUpload example_collaborators example_props
       (Some ''scan.pdf'') None Performance initial))) Performance = Some ''Invalid PDF structure''
   \<and> lookup_key (uploadStatus (fst (handleFileUpload example_collaborators example_props
       (Some ''short.pdf'') None Performance initial))) Performance = Some Error
   \<and> lookup_key (errors (fst (handleFileUpload example_collaborators example_props
       (Some ''short.pdf'') None Performance initial))) Performance = Some extraction_message
   \<and> lookup_key (uploadStatus (fst (handleFileUpload example_collaborators example_props
       (Some ''letter.pdf'') None Performance initial))) Performance = Some Error
   \<and> lookup_key (errors (fst (handleFileUpload example_collaborators example_props
       (Some ''letter.pdf'') None Performance initial))) Performance
       = Some (mismatch_message ''Unknown report type'' ''Performance Report'')
   \<and> lookup_key (uploadStatus (fst (handleFileUpload example_collaborators example_props
       (Some ''damaged.pdf'') None Performance initial))) Performance = Some Error
   \<and> lookup_key (errors (fst (handleFileUpload example_collaborators example_props
       (Some ''damaged.pdf'') None Performance initial))) Performance
       = Some ''No returns table found''"
proof -
  let ?step = "\<lparr>step_id = 2, key = Performance, title = ''Performance Report'',
      description = ''Investment Movement and Returns PDF'', expectedType = ''performance''\<rparr>"
  have other: "Asset_allocation \<noteq> Performance" by simp
  note local = failures_stay_local [OF prod.collapse [symmetric] other]
  have selection:
    "lookup_key (uploadStatus (fst (handleFileUpload example_collaborators example_props
       None (Some ''Only PDF files are accepted'') Performance initial))) Performance = Some Error
     \<and> lookup_key (errors (fst (handleFileUpload example_collaborators example_props
       None (Some ''Only PDF files are accepted'') Performance initial))) Performance
       = Some ''Only PDF files are accepted''
     \<and> lookup_key (uploadStatus (fst (handleFileUpload example_collaborators example_props
       None (Some ''Only PDF files are accepted'') Performance initial))) Asset_allocation
       = Some Idle"
    using local [where C = example_collaborators and P = example_props and candidate = None
        and error = "Some ''Only PDF files are accepted''" and s = initial]
    by (simp add: initial_def)
  have rejected:
    "lookup_key (uploadStatus (fst (handleFileUpload example_collaborators example_props
       (Some ''scan.pdf'') None Performance initial))) Performance = Some Error
     \<and> lookup_key (errors (fst (handleFileUpload example_collaborators example_props
       (Some ''scan.pdf'') None Performance initial))) Performance = Some ''Invalid PDF structure''"
    using local [where C = example_collaborators and P = example_props
        and candidate = "Some ''scan.pdf''" and error = None and s = initial
        and f = "''scan.pdf''" and message = "''Invalid PDF structure''"]
    by (simp add: example_collaborators_def)
  have insufficient:
    "lookup_key (uploadStatus (fst (handleFileUpload example_collaborators example_props
       (Some ''short.pdf'') None Performance initial))) Performance = Some Error
     \<and> lookup_key (errors (fst (handleFileUpload example_collaborators example_props
       (Some ''short.pdf'') None Performance initial))) Performance = Some extraction_message"
    using local [where C = example_collaborators and P = example_props
        and candidate = "Some ''short.pdf''" and error = None and s = initial
        and f = "''short.pdf''" and x = "\<lparr>fullText = Some (replicate 99 CHR ''p'')\<rparr>"]
    by (simp add: example_collaborators_def)
  have mismatch:
    "lookup_key (uploadStatus (fst (handleFileUpload example_collaborators example_props
       (Some ''letter.pdf'') None Performance initial))) Performance = Some Error
     \<and> lookup_key (errors (fst (handleFileUpload example_collaborators example_props
       (Some ''letter.pdf'') None Performance initial))) Performance
       = Some (mismatch_message ''Unknown report type'' ''Performance Report'')"
    using local [where C = example_collaborators and P = example_props
        and candidate = "Some ''letter.pdf''" and error = None and s = initial
        and f = "''letter.pdf''" and x = "\<lparr>fullText = Some (replicate 100 CHR ''x'')\<rparr>"
        and content = "replicate 100 CHR ''x''" and step = ?step]
    by (simp add: example_collaborators_def STEPS_def)
  have parse_failure:
    "lookup_key (uploadStatus (fst (handleFileUpload example_collaborators example_props
       (Some ''damaged.pdf'') None Performance initial))) Performance = Some Error
     \<and> lookup_key (errors (fst (handleFileUpload example_collaborators example_props
       (Some ''damaged.pdf'') None Performance initial))) Performance
       = Some ''No returns table found''"
    using local [where C = example_collaborators and P = example_props
        and candidate = "Some ''damaged.pdf''" and error = None and s = initial
        and f = "''damaged.pdf''" and x = "\<lparr>fullText = Some (replicate 101 CHR ''p'')\<rparr>"
        and content = "replicate 101 CHR ''p''" and step = ?step
        and message = "''No returns table found''"]
    by (simp add: example_collaborators_def STEPS_def)
  from selection rejected insufficient mismatch parse_failure show ?thesis
    by blast
qed

section \<open>Completing both slots in either order\<close>

text \<open>
  C5. When the second upload starts after the first has finished, completing the two
  slots in either order calls \<^verbatim>\<open>onComplete\<close> exactly once, with both payloads; that is
  \<open>completion_in_turn_fires_once\<close> below. When the two uploads are in flight together it does
  not: each call merges its payload into the \<^verbatim>\<open>parsedData\<close> of its own render (line 87),
  in which the other slot is still empty, and line 88 stores that object. With the
  allocation file and the performance file dropped one after the other and the promises
  settling afterwards, in either order of completion, both slots end in \<^verbatim>\<open>'success'\<close>, the
  payload of the slot that finished first is overwritten with \<^verbatim>\<open>null\<close>, and \<^verbatim>\<open>onComplete\<close> is
  never called.
\<close>

theorem overlapping_uploads_never_complete:
  "exec example_collaborators example_props
      [FileUpload (Some ''allocation.pdf'') None Asset_allocation,
       FileUpload (Some ''performance.pdf'') None Performance,
       Settle 0, Settle 0, Settle 0, Settle 0]
      (mounted :: (string, extractedPdf, nat) component)
     = (\<lparr>session = \<lparr>currentStep = 2,
           uploadStatus = \<lparr>asset_allocation = Some Success, performance = Some Success\<rparr>,
           parsedData = \<lparr>asset_allocation = None, performance = Some 100\<rparr>,
           errors = \<lparr>asset_allocation = None, performance = None\<rparr>\<rparr>,
         inflight = []\<rparr>,
        [Call_extractTextFromPDF ''allocation.pdf'',
         Call_extractTextFromPDF ''performance.pdf'',
         Call_identifyReportType (replicate 120 CHR ''a''),
         Call_parseReport \<lparr>fullText = Some (replicate 120 CHR ''a'')\<rparr>,
         Call_onPartialData Asset_allocation (Some 120),
         Call_identifyReportType (replicate 100 CHR ''p''),
         Call_parseReport \<lparr>fullText = Some (replicate 100 CHR ''p'')\<rparr>,
         Call_onPartialData Performance (Some 100)])
   \<and> exec example_collaborators example_props
      [FileUpload (Some ''allocation.pdf'') None Asset_allocation,
       FileUpload (Some ''performance.pdf'') None Performance,
       Settle 1, Settle 1, Settle 0, Settle 0]
      (mounted :: (string, extractedPdf, nat) component)
     = (\<lparr>session = \<lparr>currentStep = 2,
           uploadStatus = \<lparr>asset_allocation = Some Success, performance = Some Success\<rparr>,
           parsedData = \<lparr>asset_allocation = Some 120, performance = None\<rparr>,
           errors = \<lparr>asset_allocation = None, performance = None\<rparr>\<rparr>,
         inflight = []\<rparr>,
        [Call_extractTextFromPDF ''allocation.pdf'',
         Call_extractTextFromPDF ''performance.pdf'',
         Call_identifyReportType (replicate 100 CHR ''p''),
         Call_parseReport \<lparr>fullText = Some (replicate 100 CHR ''p'')\<rparr>,
         Call_onPartialData Performance (Some 100),
         Call_identifyReportType (replicate 120 CHR ''a''),
         Call_parseReport \<lparr>fullText = Some (replicate 120 CHR ''a'')\<rparr>,
         Call_onPartialData Asset_allocation (Some 120)])"
  by (simp add: example_collaborators_def example_props_def mounted_def initial_def
      start_upload_def settle_def after_extract_def after_parse_def begin_processing_def
      catch_block_def STEPS_def Let_def)

text \<open>The same two uploads, one after the other.\<close>

lemma completion_in_turn_fires_once:
  assumes "onComplete P"
    and "inflight c = []"
    and "parsedData (session c) = \<lparr>asset_allocation = None, performance = None\<rparr>"
    and "extractTextFromPDF C fa = Inr xa" and "fullText xa = Some ta" and "100 \<le> length ta"
    and "optional_type (identifyReportType C ta) = Some ''asset_allocation''"
    and "parseReport C xa = Inr pa" and "data pa = Some da"
    and "extractTextFromPDF C fp = Inr xp" and "fullText xp = Some tp" and "100 \<le> length tp"
    and "optional_type (identifyReportType C tp) = Some ''performance''"
    and "parseReport C xp = Inr pp" and "data pp = Some dp"
  shows "filter is_onComplete (snd (exec C P
            [FileUpload (Some fa) None Asset_allocation, Settle 0, Settle 0,
             FileUpload (Some fp) None Performance, Settle 0, Settle 0] c))
           = [Call_onComplete \<lparr>asset_allocation = Some da, performance = Some dp\<rparr>]
       \<and> filter is_onComplete (snd (exec C P
            [FileUpload (Some fp) None Performance, Settle 0, Settle 0,
             FileUpload (Some fa) None Asset_allocation, Settle 0, Settle 0] c))
           = [Call_onComplete \<lparr>asset_allocation = Some da, performance = Some dp\<rparr>]"
proof -
  have no_error: "\<not> truthy None" by simp
  have type_a: "optional_type (identifyReportType C ta) = Some (expectedType
      \<lparr>step_id = 1, key = Asset_allocation, title = ''Asset Allocation Report'',
        description = ''Investment Allocation PDF'', expectedType = ''asset_allocation''\<rparr>)"
    using assms(7) by simp
  have type_p: "optional_type (identifyReportType C tp) = Some (expectedType
      \<lparr>step_id = 2, key = Performance, title = ''Performance Report'',
        description = ''Investment Movement and Returns PDF'', expectedType = ''performance''\<rparr>)"
    using assms(13) by simp
  note state_a = upload_success_state
    [OF no_error assms(4,5,6) find_asset_allocation type_a assms(8)]
  note state_p = upload_success_state
    [OF no_error assms(10,11,12) find_performance type_p assms(14)]
  have other_a: "Performance \<noteq> Asset_allocation" by simp
  have other_p: "Asset_allocation \<noteq> Performance" by simp
  note calls_a = upload_success_calls
    [OF no_error assms(4,5,6) find_asset_allocation type_a assms(8) other_a]
  note calls_p = upload_success_calls
    [OF no_error assms(10,11,12) find_performance type_p assms(14) other_p]
  have allocation_first: "filter is_onComplete (snd (exec C P
      [FileUpload (Some fa) None Asset_allocation, Settle 0, Settle 0,
       FileUpload (Some fp) None Performance, Settle 0, Settle 0] c))
      = [Call_onComplete \<lparr>asset_allocation = Some da, performance = Some dp\<rparr>]"
    unfolding two_uploads_in_turn [OF assms(2)]
    by (simp add: state_a calls_a calls_p assms(1,3,9,15))
  have performance_first: "filter is_onComplete (snd (exec C P
      [FileUpload (Some fp) None Performance, Settle 0, Settle 0,
       FileUpload (Some fa) None Asset_allocation, Settle 0, Settle 0] c))
      = [Call_onComplete \<lparr>asset_allocation = Some da, performance = Some dp\<rparr>]"
    unfolding two_uploads_in_turn [OF assms(2)]
    by (simp add: state_p calls_a calls_p assms(1,3,9,15))
  from allocation_first performance_first show ?thesis ..
qed

section \<open>When onComplete is called\<close>

text \<open>
  C1, as the code has it. The specification has \<^verbatim>\<open>onComplete\<close> fire on a successful parse
  exactly when \<open>isComplete\<close> was false before the transition and is true after it. The code
  does not look at the state before: lines 99 to 107 test only whether the other slot's
  entry of the merged \<^verbatim>\<open>newParsedData\<close> is present. So, on a successful parse with
  \<^verbatim>\<open>onComplete\<close> passed, the callback is called (once, with the merged payloads) if and only
  if the other slot holds a payload; when the new payload is not null this is the same as
  \<open>isComplete\<close> being true after the transition. It is called at most once per successful
  parse. The instance that follows is a re-upload into a session that is already complete:
  the callback fires again.
\<close>

theorem onComplete_on_successful_parse:
  assumes "\<not> truthy error"
    and "extractTextFromPDF C f = Inr x"
    and "fullText x = Some txt"
    and "100 \<le> length txt"
    and "step \<in> set STEPS"
    and "optional_type (identifyReportType C txt) = Some (expectedType step)"
    and "parseReport C x = Inr p"
    and "onComplete P"
    and "other \<noteq> key step"
    and "handleFileUpload C P (Some f) error (key step) s = (s', calls)"
  shows "filter is_onComplete calls =
           (if lookup_key (parsedData s') other \<noteq> None
            then [Call_onComplete (parsedData s')] else [])
       \<and> lookup_key (parsedData s') other = lookup_key (parsedData s) other
       \<and> (data p \<noteq> None \<longrightarrow> (filter is_onComplete calls \<noteq> [] \<longleftrightarrow> isComplete s'))
       \<and> length (filter is_onComplete calls) \<le> 1"
proof -
  note found = find_step [OF assms(5)]
  have s': "s' = fst (handleFileUpload C P (Some f) error (key step) s)"
    and calls: "calls = snd (handleFileUpload C P (Some f) error (key step) s)"
    by (simp_all add: assms(10))
  have payloads: "parsedData s' = spread_with (parsedData s) (key step) (data p)"
    unfolding s' by (simp add: upload_success_state [OF assms(1-4) found assms(6,7)])
  have kept: "lookup_key (parsedData s') other = lookup_key (parsedData s) other"
    unfolding payloads by (rule lookup_spread_other [OF assms(9)])
  have this_one: "lookup_key (parsedData s') (key step) = data p"
    unfolding payloads by (rule lookup_spread_same)
  have "filter is_onComplete calls =
      (if lookup_key (parsedData s) other \<noteq> None
       then [Call_onComplete (spread_with (parsedData s) (key step) (data p))] else [])"
    unfolding calls
    by (simp add: upload_success_calls [OF assms(1-4) found assms(6,7,9)] assms(8))
  then have fired: "filter is_onComplete calls =
      (if lookup_key (parsedData s') other \<noteq> None then [Call_onComplete (parsedData s')] else [])"
    by (simp only: kept) (simp only: payloads)
  have complete: "isComplete s' \<longleftrightarrow>
      lookup_key (parsedData s') (key step) \<noteq> None \<and> lookup_key (parsedData s') other \<noteq> None"
    using assms(9) by (cases "key step"; cases other) (auto simp: isComplete_def)
  show ?thesis
    using fired kept complete this_one by auto
qed

theorem onComplete_on_successful_parse_witness:
  "isComplete \<lparr>currentStep = 2,
       uploadStatus = \<lparr>asset_allocation = Some Success, performance = Some Success\<rparr>,
       parsedData = \<lparr>asset_allocation = Some 120, performance = Some (100::nat)\<rparr>,
       errors = \<lparr>asset_allocation = None, performance = None\<rparr>\<rparr>
   \<and> filter is_onComplete (snd (handleFileUpload example_collaborators example_props
        (Some ''performance.pdf'') None Performance
        \<lparr>currentStep = 2,
         uploadStatus = \<lparr>asset_allocation = Some Success, performance = Some Success\<rparr>,
         parsedData = \<lparr>asset_allocation = Some 120, performance = Some 100\<rparr>,
         errors = \<lparr>asset_allocation = None, performance = None\<rparr>\<rparr>))
       = [Call_onComplete \<lparr>asset_allocation = Some 120, performance = Some 100\<rparr>]
   \<and> filter is_onComplete (snd (handleFileUpload example_collaborators example_props
        (Some ''performance.pdf'') None Performance initial)) = []"
proof -
  let ?step = "\<lparr>step_id = 2, key = Performance, title = ''Performance Report'',
      description = ''Investment Movement and Returns PDF'', expectedType = ''performance''\<rparr>"
  let ?both = "\<lparr>currentStep = 2,
       uploadStatus = \<lparr>asset_allocation = Some Success, performance = Some Success\<rparr>,
       parsedData = \<lparr>asset_allocation = Some 120, performance = Some (100::nat)\<rparr>,
       errors = \<lparr>asset_allocation = None, performance = None\<rparr>\<rparr>"
  have h1: "\<not> truthy None" by simp
  have h2: "extractTextFromPDF example_collaborators ''performance.pdf''
      = Inr \<lparr>fullText = Some (replicate 100 CHR ''p'')\<rparr>"
    by (simp add: example_collaborators_def)
  have h3: "fullText \<lparr>fullText = Some (replicate 100 CHR ''p'')\<rparr> = Some (replicate 100 CHR ''p'')"
    by simp
  have h4: "100 \<le> length (replicate 100 CHR ''p'')" by simp
  have h5: "?step \<in> set STEPS" by (simp add: STEPS_def)
  have h6: "optional_type (identifyReportType example_collaborators (replicate 100 CHR ''p''))
      = Some (expectedType ?step)"
    by (simp add: example_collaborators_def)
  have h7: "parseReport example_collaborators \<lparr>fullText = Some (replicate 100 CHR ''p'')\<rparr>
      = Inr \<lparr>data = Some 100\<rparr>"
    by (simp add: example_collaborators_def)
  have h8: "onComplete example_props" by (simp add: example_props_def)
  have h9: "Asset_allocation \<noteq> key ?step" by simp
  note fires = onComplete_on_successful_parse
    [OF h1 h2 h3 h4 h5 h6 h7 h8 h9 prod.collapse [symmetric]]
  have before: "isComplete ?both" by (simp add: isComplete_def)
  have again: "filter is_onComplete (snd (handleFileUpload example_collaborators example_props
        (Some ''performance.pdf'') None Performance ?both))
       = [Call_onComplete \<lparr>asset_allocation = Some 120, performance = Some 100\<rparr>]"
    using fires [of ?both]
    by (simp add: upload_success_state [OF h1 h2 h3 h4 find_performance h6 h7])
  have alone: "filter is_onComplete (snd (handleFileUpload example_collaborators example_props
        (Some ''performance.pdf'') None Performance initial)) = []"
    using fires [of initial] by (simp add: initial_def)
  from before again alone show ?thesis by blast
qed

text \<open>
  C1 as written fails. After both uploads have succeeded and a re-upload to the
  allocation slot has failed, \<open>isComplete\<close> is true (both payloads are still there). A
  successful performance upload then calls \<^verbatim>\<open>onComplete\<close>, although \<open>isComplete\<close> was true
  before it, and although the allocation slot is in \<^verbatim>\<open>'error'\<close> before and after.
\<close>

theorem onComplete_fires_when_already_complete:
  "isComplete (session (fst (exec example_collaborators example_props
      [FileUpload (Some ''allocation.pdf'') None Asset_allocation, Settle 0, Settle 0,
       FileUpload (Some ''performance.pdf'') None Performance, Settle 0, Settle 0,
       FileUpload (Some ''short.pdf'') None Asset_allocation, Settle 0]
      (mounted :: (string, extractedPdf, nat) component))))
   \<and> handleFileUpload example_collaborators example_props (Some ''performance.pdf'') None Performance
       (session (fst (exec example_collaborators example_props
         [FileUpload (Some ''allocation.pdf'') None Asset_allocation, Settle 0, Settle 0,
          FileUpload (Some ''performance.pdf'') None Performance, Settle 0, Settle 0,
          FileUpload (Some ''short.pdf'') None Asset_allocation, Settle 0]
         (mounted :: (string, extractedPdf, nat) component))))
     = (\<lparr>currentStep = 2,
         uploadStatus = \<lparr>asset_allocation = Some Error, performance = Some Success\<rparr>,
         parsedData = \<lparr>asset_allocation = Some 120, performance = Some 100\<rparr>,
         errors = \<lparr>asset_allocation = Some extraction_message, performance = None\<rparr>\<rparr>,
        [Call_extractTextFromPDF ''performance.pdf'',
         Call_identifyReportType (replicate 100 CHR ''p''),
         Call_parseReport \<lparr>fullText = Some (replicate 100 CHR ''p'')\<rparr>,
         Call_onPartialData Performance (Some 100),
         Call_onComplete \<lparr>asset_allocation = Some 120, performance = Some 100\<rparr>])"
  by (simp add: example_collaborators_def example_props_def mounted_def initial_def
      start_upload_def settle_def after_extract_def after_parse_def handleFileUpload_def
      try_block_def begin_processing_def catch_block_def STEPS_def isComplete_def Let_def)

section \<open>isComplete and the statuses\<close>

text \<open>
  C2, as the code has it. \<open>isComplete\<close> is computed from \<^verbatim>\<open>parsedData\<close>, not from the
  statuses. Take any sequence of uploads, resets and settling promises, from the mounted
  component, in which no upload starts while an upload to the other slot is in flight, and
  a parser that never resolves to a null payload: in the state reached, if both statuses
  are \<^verbatim>\<open>'success'\<close> then \<open>isComplete\<close> is true. The converse fails, since a selection error,
  a failed re-upload or a new attempt leaves the earlier payload in place. Uploads to the
  two slots in flight together are left aside here (see C5).
\<close>

theorem isComplete_when_all_success:
  fixes C :: "('f, 'x, 'd) collaborators"
  assumes "\<forall>x p. parseReport C x = Inr p \<longrightarrow> data p \<noteq> None"
    and "no_cross_slot_overlap C P evs mounted"
    and "exec C P evs mounted = (c, calls)"
  shows "(\<forall>k. lookup_key (uploadStatus (session c)) k = Some Success) \<longrightarrow> isComplete (session c)"
proof
  assume all: "\<forall>k. lookup_key (uploadStatus (session c)) k = Some Success"
  have c: "c = fst (exec C P evs mounted)"
    by (simp add: assms(3))
  have kept: "payloads_kept c"
    unfolding c by (rule exec_keeps_payloads [OF assms(1) mounted_payloads_kept assms(2)])
  from payloads_kept_session [OF kept all [rule_format, of Asset_allocation]]
    payloads_kept_session [OF kept all [rule_format, of Performance]]
  show "isComplete (session c)"
    by (simp add: isComplete_def)
qed

theorem isComplete_when_all_success_witness:
  "no_cross_slot_overlap example_collaborators example_props
      [FileUpload (Some ''allocation.pdf'') None Asset_allocation, Settle 0, Settle 0,
       FileUpload (Some ''performance.pdf'') None Performance, Settle 0, Settle 0]
      (mounted :: (string, extractedPdf, nat) component)
   \<and> uploadStatus (session (fst (exec example_collaborators example_props
      [FileUpload (Some ''allocation.pdf'') None Asset_allocation, Settle 0, Settle 0,
       FileUpload (Some ''performance.pdf'') None Performance, Settle 0, Settle 0]
      (mounted :: (string, extractedPdf, nat) component))))
     = \<lparr>asset_allocation = Some Success, performance = Some Success\<rparr>
   \<and> isComplete (session (fst (exec example_collaborators example_props
      [FileUpload (Some ''allocation.pdf'') None Asset_allocation, Settle 0, Settle 0,
       FileUpload (Some ''performance.pdf'') None Performance, Settle 0, Settle 0]
      (mounted :: (string, extractedPdf, nat) component))))"
proof -
  let ?evs = "[FileUpload (Some ''allocation.pdf'') None Asset_allocation, Settle 0, Settle 0,
       FileUpload (Some ''performance.pdf'') None Performance, Settle 0, Settle 0]"
  let ?c = "fst (exec example_collaborators example_props ?evs
      (mounted :: (string, extractedPdf, nat) component))"
  have apart: "no_cross_slot_overlap example_collaborators example_props ?evs
      (mounted :: (string, extractedPdf, nat) component)"
    by (simp add: example_collaborators_def example_props_def mounted_def initial_def
        start_upload_def settle_def after_extract_def after_parse_def begin_processing_def
        catch_block_def STEPS_def Let_def)
  have statuses: "uploadStatus (session ?c)
      = \<lparr>asset_allocation = Some Success, performance = Some Success\<rparr>"
    by (simp add: example_collaborators_def example_props_def mounted_def initial_def
        start_upload_def settle_def after_extract_def after_parse_def begin_processing_def
        catch_block_def STEPS_def Let_def)
  have all: "\<forall>k. lookup_key (uploadStatus (session ?c)) k = Some Success"
  proof
    fix k show "lookup_key (uploadStatus (session ?c)) k = Some Success"
      unfolding statuses by (cases k) simp_all
  qed
  from isComplete_when_all_success [OF example_payloads_truthy apart prod.collapse [symmetric]] all
  have "isComplete (session ?c)" by blast
  with apart statuses show ?thesis by blast
qed

text \<open>
  C2 as written fails: after both uploads have succeeded, a selection error on the
  allocation slot leaves \<open>isComplete\<close> true while that slot's status is \<^verbatim>\<open>'error'\<close>.
\<close>

theorem isComplete_with_a_slot_in_error:
  "isComplete (session (fst (exec example_collaborators example_props
      [FileUpload (Some ''allocation.pdf'') None Asset_allocation, Settle 0, Settle 0,
       FileUpload (Some ''performance.pdf'') None Performance, Settle 0, Settle 0,
       FileUpload None (Some ''Only PDF files are accepted'') Asset_allocation]
      (mounted :: (string, extractedPdf, nat) component))))
   \<and> lookup_key (uploadStatus (session (fst (exec example_collaborators example_props
      [FileUpload (Some ''allocation.pdf'') None Asset_allocation, Settle 0, Settle 0,
       FileUpload (Some ''performance.pdf'') None Performance, Settle 0, Settle 0,
       FileUpload None (Some ''Only PDF files are accepted'') Asset_allocation]
      (mounted :: (string, extractedPdf, nat) component))))) Asset_allocation = Some Error"
  by (simp add: example_collaborators_def example_props_def mounted_def initial_def
      start_upload_def settle_def after_extract_def after_parse_def begin_processing_def
      catch_block_def STEPS_def isComplete_def Let_def)

section \<open>Payload and error of one slot\<close>

text \<open>
  C3, as the code has it. Take any sequence of uploads, resets and settling promises, from
  the mounted component, in which no call of \<^verbatim>\<open>handleFileUpload\<close> writes to slot \<open>k\<close> while an
  upload to slot \<open>k\<close> is in flight (the other slot is free to overlap). In the state
  reached, slot \<open>k\<close> has an error exactly when its status is \<^verbatim>\<open>'error'\<close>; in particular it has
  none when its status is \<^verbatim>\<open>'success'\<close>. When a new upload attempt begins, the slot's error is
  cleared and \<^verbatim>\<open>parsedData\<close> is left as it is. \<^verbatim>\<open>handleReset\<close> clears both the slot's payload
  and its error.
\<close>

theorem error_cleared_payload_kept:
  fixes C :: "('f, 'x, 'd) collaborators"
  assumes "no_same_slot_overlap k C P evs mounted"
    and "exec C P evs mounted = (c, calls)"
  shows "((lookup_key (errors (session c)) k \<noteq> None)
            = (lookup_key (uploadStatus (session c)) k = Some Error))
       \<and> (lookup_key (uploadStatus (session c)) k = Some Success
            \<longrightarrow> lookup_key (errors (session c)) k = None)
       \<and> (\<not> truthy error \<longrightarrow>
            lookup_key (errors (session (fst (fire C P (FileUpload (Some f) error k) c)))) k = None
          \<and> parsedData (session (fst (fire C P (FileUpload (Some f) error k) c)))
              = parsedData (session c))
       \<and> lookup_key (parsedData (session (fst (fire C P (Reset k) c)))) k = None
       \<and> lookup_key (errors (session (fst (fire C P (Reset k) c)))) k = None"
proof -
  have c: "c = fst (exec C P evs mounted)"
    by (simp add: assms(2))
  have "errors_match k c"
    unfolding c by (rule exec_keeps_errors_match [OF mounted_errors_match assms(1)])
  then have inv: "(lookup_key (errors (session c)) k \<noteq> None)
      = (lookup_key (uploadStatus (session c)) k = Some Error)"
    by (simp add: errors_match_def)
  then have success: "lookup_key (uploadStatus (session c)) k = Some Success
      \<longrightarrow> lookup_key (errors (session c)) k = None"
    by auto
  have begun: "\<not> truthy error \<longrightarrow>
      lookup_key (errors (session (fst (fire C P (FileUpload (Some f) error k) c)))) k = None
      \<and> parsedData (session (fst (fire C P (FileUpload (Some f) error k) c)))
          = parsedData (session c)"
    by (simp add: start_upload_def begin_processing_fields lookup_spread_same)
  have reset: "lookup_key (parsedData (session (fst (fire C P (Reset k) c)))) k = None"
    "lookup_key (errors (session (fst (fire C P (Reset k) c)))) k = None"
    by (simp_all add: handleReset_fields lookup_spread_same)
  from inv success begun reset show ?thesis by blast
qed

theorem error_cleared_payload_kept_witness:
  "no_same_slot_overlap Asset_allocation example_collaborators example_props
      [FileUpload (Some ''performance.pdf'') None Performance,
       FileUpload (Some ''scan.pdf'') None Asset_allocation, Settle 1,
       FileUpload (Some ''allocation.pdf'') None Asset_allocation, Settle 1, Settle 1]
      (mounted :: (string, extractedPdf, nat) component)
   \<and> lookup_key (uploadStatus (session (fst (exec example_collaborators example_props
      [FileUpload (Some ''performance.pdf'') None Performance,
       FileUpload (Some ''scan.pdf'') None Asset_allocation, Settle 1,
       FileUpload (Some ''allocation.pdf'') None Asset_allocation, Settle 1, Settle 1]
      (mounted :: (string, extractedPdf, nat) component))))) Asset_allocation = Some Success
   \<and> lookup_key (errors (session (fst (exec example_collaborators example_props
      [FileUpload (Some ''performance.pdf'') None Performance,
       FileUpload (Some ''scan.pdf'') None Asset_allocation, Settle 1,
       FileUpload (Some ''allocation.pdf'') None Asset_allocation, Settle 1, Settle 1]
      (mounted :: (string, extractedPdf, nat) component))))) Asset_allocation = None"
proof -
  let ?evs = "[FileUpload (Some ''performance.pdf'') None Performance,
       FileUpload (Some ''scan.pdf'') None Asset_allocation, Settle 1,
       FileUpload (Some ''allocation.pdf'') None Asset_allocation, Settle 1, Settle 1]"
  let ?c = "fst (exec example_collaborators example_props ?evs
      (mounted :: (string, extractedPdf, nat) component))"
  have apart: "no_same_slot_overlap Asset_allocation example_collaborators example_props ?evs
      (mounted :: (string, extractedPdf, nat) component)"
    by (simp add: example_collaborators_def example_props_def mounted_def initial_def
        start_upload_def settle_def after_extract_def after_parse_def begin_processing_def
        catch_block_def STEPS_def Let_def)
  have status: "lookup_key (uploadStatus (session ?c)) Asset_allocation = Some Success"
    by (simp add: example_collaborators_def example_props_def mounted_def initial_def
        start_upload_def settle_def after_extract_def after_parse_def begin_processing_def
        catch_block_def STEPS_def Let_def)
  from error_cleared_payload_kept [OF apart prod.collapse [symmetric]] status
  have "lookup_key (errors (session ?c)) Asset_allocation = None" by blast
  with apart status show ?thesis by blast
qed

text \<open>
  C3 as written fails. After a successful allocation upload a new attempt begins: the slot
  is in \<^verbatim>\<open>'processing'\<close> and still holds the old payload. When the extractor then rejects the
  file, the slot holds the old payload and the new error together.
\<close>

theorem payload_and_error_both_set:
  "lookup_key (uploadStatus (session (fst (exec example_collaborators example_props
      [FileUpload (Some ''allocation.pdf'') None Asset_allocation, Settle 0, Settle 0,
       FileUpload (Some ''scan.pdf'') None Asset_allocation]
      (mounted :: (string, extractedPdf, nat) component))))) Asset_allocation = Some Processing
   \<and> lookup_key (parsedData (session (fst (exec example_collaborators example_props
      [FileUpload (Some ''allocation.pdf'') None Asset_allocation, Settle 0, Settle 0,
       FileUpload (Some ''scan.pdf'') None Asset_allocation]
      (mounted :: (string, extractedPdf, nat) component))))) Asset_allocation = Some 120
   \<and> lookup_key (parsedData (session (fst (exec example_collaborators example_props
      [FileUpload (Some ''allocation.pdf'') None Asset_allocation, Settle 0, Settle 0,
       FileUpload (Some ''scan.pdf'') None Asset_allocation, Settle 0]
      (mounted :: (string, extractedPdf, nat) component))))) Asset_allocation = Some 120
   \<and> lookup_key (errors (session (fst (exec example_collaborators example_props
      [FileUpload (Some ''allocation.pdf'') None Asset_allocation, Settle 0, Settle 0,
       FileUpload (Some ''scan.pdf'') None Asset_allocation, Settle 0]
      (mounted :: (string, extractedPdf, nat) component))))) Asset_allocation
     = Some ''Invalid PDF structure''"
  by (simp add: example_collaborators_def example_props_def mounted_def initial_def
      start_upload_def settle_def after_extract_def after_parse_def begin_processing_def
      catch_block_def STEPS_def Let_def)

section \<open>handleReset after a success\<close>

text \<open>
  C8. \<^verbatim>\<open>handleReset\<close> is called by the Replace button, which a slot shows when its status
  is \<^verbatim>\<open>'success'\<close>. The mounted component has both statuses \<^verbatim>\<open>'idle'\<close>. After a successful
  allocation upload and a click on Replace, the slot's payload and error are cleared, and
  its status is \<^verbatim>\<open>null\<close>: \<^verbatim>\<open>handleReset\<close> stores \<^verbatim>\<open>null\<close> where the initial state has \<^verbatim>\<open>'idle'\<close>.
\<close>

theorem reset_stores_null_status:
  "uploadStatus (session (mounted :: (string, extractedPdf, nat) component))
     = \<lparr>asset_allocation = Some Idle, performance = Some Idle\<rparr>
   \<and> uploadStatus (session (fst (exec example_collaborators example_props
      [FileUpload (Some ''allocation.pdf'') None Asset_allocation, Settle 0, Settle 0]
      (mounted :: (string, extractedPdf, nat) component))))
     = \<lparr>asset_allocation = Some Success, performance = Some Idle\<rparr>
   \<and> session (fst (exec example_collaborators example_props
      [FileUpload (Some ''allocation.pdf'') None Asset_allocation, Settle 0, Settle 0,
       Reset Asset_allocation]
      (mounted :: (string, extractedPdf, nat) component)))
     = \<lparr>currentStep = 2,
        uploadStatus = \<lparr>asset_allocation = None, performance = Some Idle\<rparr>,
        parsedData = \<lparr>asset_allocation = None, performance = None\<rparr>,
        errors = \<lparr>asset_allocation = None, performance = None\<rparr>\<rparr>"
  by (simp add: example_collaborators_def example_props_def mounted_def initial_def
      start_upload_def settle_def after_extract_def after_parse_def begin_processing_def
      catch_block_def handleReset_def STEPS_def Let_def)

end
